theory Spec2Isabelle
  imports Main "HOL-Library.AList"
begin

section \<open>The catalog of \<^verbatim>\<open>scripts/preload_models.py\<close>\<close>

text \<open>
  An entry of the global dictionary \<^verbatim>\<open>Datasets\<close>. Every entry of the source has the same
  seven keys, so an entry is a record. The dictionary itself is an association list: Python
  dictionaries iterate in insertion order, and the order decides which model becomes
  the default.
\<close>

record descriptor =
  description :: string
  repo_id :: string
  config :: string
  filename :: string
  recommended :: bool
  width :: int
  height :: int

type_synonym catalog = "(string \<times> descriptor) list"

definition Model_dir :: string where
  "Model_dir = ''./models/ldm/stable-diffusion-v1/''"

definition Config_file :: string where
  "Config_file = ''./configs/models.yaml''"

definition SD_Configs :: string where
  "SD_Configs = ''./configs/stable-diffusion''"

definition Datasets :: catalog where
  "Datasets =
    [(''stable-diffusion-1.5'',
        \<lparr>description = ''The newest Stable Diffusion version 1.5 weight file (4.27 GB)'',
         repo_id = ''runwayml/stable-diffusion-v1-5'',
         config = ''v1-inference.yaml'',
         filename = ''v1-5-pruned-emaonly.ckpt'',
         recommended = True, width = 512, height = 512\<rparr>),
     (''inpainting-1.5'',
        \<lparr>description = ''RunwayML SD 1.5 model optimized for inpainting (4.27 GB)'',
         repo_id = ''runwayml/stable-diffusion-inpainting'',
         config = ''v1-inpainting-inference.yaml'',
         filename = ''sd-v1-5-inpainting.ckpt'',
         recommended = True, width = 512, height = 512\<rparr>),
     (''stable-diffusion-1.4'',
        \<lparr>description = ''The original Stable Diffusion version 1.4 weight file (4.27 GB)'',
         repo_id = ''CompVis/stable-diffusion-v-1-4-original'',
         config = ''v1-inference.yaml'',
         filename = ''sd-v1-4.ckpt'',
         recommended = False, width = 512, height = 512\<rparr>),
     (''waifu-diffusion-1.3'',
        \<lparr>description = ''Stable Diffusion 1.4 fine tuned on anime-styled images (4.27)'',
         repo_id = ''hakurei/waifu-diffusion-v1-3'',
         config = ''v1-inference.yaml'',
         filename = ''model-epoch09-float32.ckpt'',
         recommended = False, width = 512, height = 512\<rparr>),
     (''ft-mse-improved-autoencoder-840000'',
        \<lparr>description = ''StabilityAI improved autoencoder fine-tuned for human faces (recommended; 335 MB)'',
         repo_id = ''stabilityai/sd-vae-ft-mse-original'',
         config = ''VAE'',
         filename = ''vae-ft-mse-840000-ema-pruned.ckpt'',
         recommended = True, width = 512, height = 512\<rparr>)]"

text \<open>
  The functions below take the catalog as their first argument \<open>ds\<close>; the script reads the
  global \<^verbatim>\<open>Datasets\<close>, which is the instance \<^const>\<open>Datasets\<close>.
\<close>

section \<open>Errors\<close>

text \<open>
  The exceptions the modelled code can raise. \<^verbatim>\<open>Datasets[mod]\<close> on an unknown name raises
  \<open>KeyError\<close>, \<^verbatim>\<open>None.keys()\<close> raises \<open>AttributeError\<close>, item assignment on something that
  is not a mapping raises \<open>TypeError\<close>, \<^verbatim>\<open>input()\<close> at the end of the input raises
  \<open>EOFError\<close>, \<^verbatim>\<open>response[0]\<close> on an empty string raises \<open>IndexError\<close>. The other
  constructors carry the message of a failure of an external call (file system, YAML
  library, model hub). All of them are subclasses of \<^verbatim>\<open>Exception\<close>; asynchronous
  interrupts are not modelled.
\<close>

datatype error =
    KeyError string
  | AttributeError string
  | TypeError string
  | IndexError
  | EOFError
  | FileNotFoundError string
  | FileExistsError string
  | OSError string
  | YamlError string
  | HubError string

section \<open>Paths\<close>

text \<open>\<^verbatim>\<open>posixpath.join\<close> with two arguments.\<close>

definition os_path_join :: "string \<Rightarrow> string \<Rightarrow> string" where
  "os_path_join a b =
     (if (case b of [] \<Rightarrow> False | c # _ \<Rightarrow> c = CHR ''/'') then b
      else if a = [] \<or> last a = CHR ''/'' then a @ b
      else a @ ''/'' @ b)"

text \<open>
  \<^verbatim>\<open>posixpath.dirname\<close>: everything up to and including the last slash, with the trailing
  slashes removed unless the head consists of slashes only.
\<close>

definition os_path_dirname :: "string \<Rightarrow> string" where
  "os_path_dirname p =
     (let head = rev (dropWhile (\<lambda>c. c \<noteq> CHR ''/'') (rev p))
      in if head \<noteq> [] \<and> \<not> list_all (\<lambda>c. c = CHR ''/'') head
         then rev (dropWhile (\<lambda>c. c = CHR ''/'') (rev head))
         else head)"

section \<open>The persisted configuration\<close>

text \<open>
  The values of a YAML document. The configuration loaded by \<^verbatim>\<open>OmegaConf.load\<close> is a
  mapping from stanza names to values; a stanza that the tool can work on is itself a
  mapping (\<open>VDict\<close>). Mappings are association lists: both Python dictionaries and
  OmegaConf's \<^verbatim>\<open>DictConfig\<close> keep insertion order, assignment to an existing key replaces
  the value in place, assignment to a new key appends (\<^const>\<open>AList.update\<close>), and
  \<^verbatim>\<open>pop(key, None)\<close> removes the key if present (\<^const>\<open>AList.delete\<close>).
\<close>

datatype yval =
    VNone
  | VBool bool
  | VInt int
  | VStr string
  | VList "yval list"
  | VDict "(string \<times> yval) list"

type_synonym stanza = "(string \<times> yval) list"
type_synonym conf = "(string \<times> yval) list"

text \<open>
  \<^verbatim>\<open>model in conf\<close>: OmegaConf counts a key as contained when it has a value that is not
  the mandatory-missing marker \<^verbatim>\<open>???\<close>. String interpolation is not modelled: values are
  taken literally.
\<close>

definition conf_contains :: "conf \<Rightarrow> string \<Rightarrow> bool" where
  "conf_contains conf model =
     (case map_of conf model of None \<Rightarrow> False | Some v \<Rightarrow> v \<noteq> VStr ''???'')"

text \<open>\<^verbatim>\<open>stanza = conf[model] if model in conf else { }\<close>\<close>

definition get_stanza :: "conf \<Rightarrow> string \<Rightarrow> yval" where
  "get_stanza conf model =
     (if conf_contains conf model
      then (case map_of conf model of Some v \<Rightarrow> v | None \<Rightarrow> VDict [])
      else VDict [])"

section \<open>Config synthesis: \<^verbatim>\<open>new_config_file_contents\<close>\<close>

text \<open>
  The first loop of \<^verbatim>\<open>new_config_file_contents\<close>:
  \<^verbatim>\<open>for model in successfully_downloaded:
      if Datasets[model]['config'] == 'VAE': vae = Datasets[model]['file']\<close>
  The third argument is the value of \<^verbatim>\<open>vae\<close> so far (\<open>None\<close> at the start).
\<close>

fun find_vae :: "catalog \<Rightarrow> string list \<Rightarrow> string option \<Rightarrow> error + string option" where
  "find_vae ds [] vae = Inr vae"
| "find_vae ds (model # rest) vae =
     (case map_of ds model of
        None \<Rightarrow> Inl (KeyError model)
      | Some d \<Rightarrow> find_vae ds rest (if config d = ''VAE'' then Some (filename d) else vae))"

text \<open>
  The assignments to one stanza in the body of the second loop, lines 285 to 296 of the
  source, in the source's order. The test \<^verbatim>\<open>if vae:\<close> is Python's truth value: \<^verbatim>\<open>vae\<close> is
  neither \<^verbatim>\<open>None\<close> nor the empty string. The record field \<open>filename\<close> is the key
  \<^verbatim>\<open>'file'\<close> of the source.
\<close>

definition fill_stanza :: "descriptor \<Rightarrow> string option \<Rightarrow> bool \<Rightarrow> stanza \<Rightarrow> stanza" where
  "fill_stanza d vae default_selected stanza =
     (let s1 = AList.update ''description'' (VStr (description d)) stanza;
          s2 = AList.update ''weights'' (VStr (os_path_join Model_dir (filename d))) s1;
          s3 = AList.update ''config'' (VStr (os_path_join SD_Configs (config d))) s2;
          s4 = AList.update ''width'' (VInt (width d)) s3;
          s5 = AList.update ''height'' (VInt (height d)) s4;
          s6 = AList.delete ''default'' s5;
          s7 = (case vae of
                  None \<Rightarrow> s6
                | Some v \<Rightarrow>
                    if v = [] then s6
                    else AList.update ''vae'' (VStr (os_path_join Model_dir v)) s6)
      in if \<not> default_selected then AList.update ''default'' (VBool True) s7 else s7)"

text \<open>
  The second loop. A catalog entry of kind \<^verbatim>\<open>'VAE'\<close> is skipped. The first assignment
  \<^verbatim>\<open>stanza['description'] = ...\<close> raises when \<^verbatim>\<open>conf[model]\<close> is not a mapping; the
  exception leaves the function, so the configuration built so far is lost.
  After the body \<^verbatim>\<open>default_selected\<close> is true whatever it was before.
\<close>

fun stanza_loop :: "catalog \<Rightarrow> string option \<Rightarrow> string list \<Rightarrow> bool \<Rightarrow> conf \<Rightarrow> error + conf" where
  "stanza_loop ds vae [] default_selected conf = Inr conf"
| "stanza_loop ds vae (model # rest) default_selected conf =
     (case map_of ds model of
        None \<Rightarrow> Inl (KeyError model)
      | Some d \<Rightarrow>
          if config d = ''VAE'' then stanza_loop ds vae rest default_selected conf
          else (case get_stanza conf model of
                  VDict stanza \<Rightarrow>
                    stanza_loop ds vae rest True
                      (AList.update model (VDict (fill_stanza d vae default_selected stanza)) conf)
                | _ \<Rightarrow> Inl (TypeError model)))"

text \<open>
  Lines 272 to 297 of \<^verbatim>\<open>new_config_file_contents\<close>: what the function does to the loaded
  configuration, between \<^verbatim>\<open>OmegaConf.load\<close> and \<^verbatim>\<open>OmegaConf.to_yaml\<close>. The argument \<open>sd\<close>
  is the list of keys of \<^verbatim>\<open>successfully_downloaded\<close> in iteration order.
\<close>

definition new_config :: "catalog \<Rightarrow> conf \<Rightarrow> string list \<Rightarrow> error + conf" where
  "new_config ds conf sd =
     (case find_vae ds sd None of
        Inl e \<Rightarrow> Inl e
      | Inr vae \<Rightarrow> stanza_loop ds vae sd False conf)"

section \<open>The world: files, operator, hub\<close>

text \<open>
  The messages the script prints that report an outcome, one constructor per
  \<^verbatim>\<open>print\<close> statement; banners, menus and prompts are not recorded.
  \<^item> \<open>Exists f\<close>: \<^verbatim>\<open> * {model_name}: exists\<close>
  \<^item> \<open>Downloading f\<close>: \<^verbatim>\<open> * {model_name}: downloading or retrieving from cache...\<close>
  \<^item> \<open>ErrorDownloading f e\<close>: \<^verbatim>\<open>** Error downloading {model_name}: {str(e)} **\<close>
  \<^item> \<open>SuccessfullyInstalled ks\<close>: \<^verbatim>\<open>Successfully installed {keys}\<close>
  \<^item> \<open>LegacyFound\<close>: \<^verbatim>\<open>You seem to have the Stable Diffusion v4.1 "model.ckpt" already installed.\<close>
  \<^item> \<open>LegacyRenamed n\<close>: \<^verbatim>\<open>model.ckpt => {new_name}\<close>
  \<^item> \<open>ErrorCreatingConfig e\<close>: \<^verbatim>\<open>**Error creating config file {Config_file}: {str(e)} **\<close>
  \<^item> \<open>ConfigCreated\<close>: \<^verbatim>\<open>Successfully created new configuration file {Config_file}\<close>
\<close>

datatype event =
    Exists string
  | Downloading string
  | ErrorDownloading string error
  | SuccessfullyInstalled "string list"
  | LegacyFound
  | LegacyRenamed string
  | ErrorCreatingConfig error
  | ConfigCreated

text \<open>
  The state the script works on. \<open>files\<close> maps a path to the content of the regular file
  there; directories are not tracked, and two different path strings are two different
  files (no links between them). \<open>hub_calls\<close> lists the requests sent to the model hub
  (repository, file name, access token), \<open>out\<close> the messages printed, \<open>hf_token\<close> is
  the token stored by \<^verbatim>\<open>HfFolder\<close>, \<open>stdin\<close> the lines the operator will still type.
\<close>

record world =
  files :: "string \<rightharpoonup> string"
  hub_calls :: "(string \<times> string \<times> string) list"
  out :: "event list"
  hf_token :: "string option"
  stdin :: "string list"

text \<open>
  The external collaborators, as parameters of the model. \<open>yaml_load\<close> and \<open>to_yaml\<close> are
  the YAML reader and writer of OmegaConf. The \<open>..._fault\<close> fields say which file system
  calls the environment refuses (\<open>None\<close>: the call goes through); a refused write has put
  the first \<open>n\<close> characters of its data into the file. \<open>hf_hub_download\<close> is the hub
  client: given the requests made so far, the repository, the file name and the token,
  it fails (network, authorization, missing remote object) or returns the path of the
  cache entry and its content. \<open>support_models\<close> stands for the seven downloads of
  support models at the end of the main program.
\<close>

record env =
  yaml_load :: "string \<Rightarrow> error + conf"
  to_yaml :: "conf \<Rightarrow> error + string"
  open_fault :: "string \<Rightarrow> error option"
  write_fault :: "string \<Rightarrow> string \<Rightarrow> (nat \<times> error) option"
  rename_fault :: "string \<Rightarrow> string \<Rightarrow> error option"
  makedirs_fault :: "string \<Rightarrow> error option"
  link_fault :: "string \<Rightarrow> string \<Rightarrow> error option"
  hf_hub_download ::
    "(string \<times> string \<times> string) list \<Rightarrow> string \<Rightarrow> string \<Rightarrow> string \<Rightarrow> error + (string \<times> string)"
  support_models :: "world \<Rightarrow> (error + unit) \<times> world"

subsection \<open>File system calls\<close>

text \<open>\<^verbatim>\<open>open(path, 'w')\<close>: creates the file or truncates it.\<close>

definition open_w :: "env \<Rightarrow> string \<Rightarrow> (string \<rightharpoonup> string) \<Rightarrow> error + (string \<rightharpoonup> string)" where
  "open_w E path fs =
     (case open_fault E path of
        Some e \<Rightarrow> Inl e
      | None \<Rightarrow> Inr (fs(path \<mapsto> [])))"

text \<open>\<^verbatim>\<open>outfile.write(data)\<close> on the file opened at \<open>path\<close>: appends.\<close>

definition file_write ::
  "env \<Rightarrow> string \<Rightarrow> string \<Rightarrow> (string \<rightharpoonup> string) \<Rightarrow> error option \<times> (string \<rightharpoonup> string)" where
  "file_write E path data fs =
     (let old = (case fs path of None \<Rightarrow> [] | Some c \<Rightarrow> c)
      in case write_fault E path data of
           Some (n, e) \<Rightarrow> (Some e, fs(path \<mapsto> old @ take n data))
         | None \<Rightarrow> (None, fs(path \<mapsto> old @ data)))"

text \<open>
  \<^verbatim>\<open>os.rename(src, dst)\<close> with POSIX semantics: an existing destination is replaced, and a
  failed call changes nothing.
\<close>

definition os_rename ::
  "env \<Rightarrow> string \<Rightarrow> string \<Rightarrow> (string \<rightharpoonup> string) \<Rightarrow> error + (string \<rightharpoonup> string)" where
  "os_rename E src dst fs =
     (case fs src of
        None \<Rightarrow> Inl (FileNotFoundError src)
      | Some c \<Rightarrow>
          (case rename_fault E src dst of
             Some e \<Rightarrow> Inl e
           | None \<Rightarrow> Inr ((fs(src := None))(dst \<mapsto> c))))"

text \<open>\<^verbatim>\<open>Path(src).link_to(dst)\<close>, that is \<^verbatim>\<open>os.link(src, dst)\<close>: refuses an existing destination.\<close>

definition os_link ::
  "env \<Rightarrow> string \<Rightarrow> string \<Rightarrow> (string \<rightharpoonup> string) \<Rightarrow> error + (string \<rightharpoonup> string)" where
  "os_link E src dst fs =
     (case fs src of
        None \<Rightarrow> Inl (FileNotFoundError src)
      | Some c \<Rightarrow>
          if fs dst \<noteq> None then Inl (FileExistsError dst)
          else (case link_fault E src dst of
                  Some e \<Rightarrow> Inl e
                | None \<Rightarrow> Inr (fs(dst \<mapsto> c))))"

text \<open>\<^verbatim>\<open>OmegaConf.load(path)\<close>: opening a missing file raises; otherwise the text is parsed.\<close>

definition OmegaConf_load :: "env \<Rightarrow> (string \<rightharpoonup> string) \<Rightarrow> string \<Rightarrow> error + conf" where
  "OmegaConf_load E fs path =
     (case fs path of
        None \<Rightarrow> Inl (FileNotFoundError path)
      | Some txt \<Rightarrow> yaml_load E txt)"

subsection \<open>\<^verbatim>\<open>new_config_file_contents\<close> and \<^verbatim>\<open>update_config_file\<close>\<close>

definition nl :: string where
  "nl = [CHR 0x0A]"

definition Config_preamble :: string where
  "Config_preamble =
     ''# This file describes the alternative machine learning models'' @ nl @
     ''# available to InvokeAI script.'' @ nl @
     ''#'' @ nl @
     ''# To add a new model, follow the examples below. Each'' @ nl @
     ''# model requires a model config file, a weights file,'' @ nl @
     ''# and the width and height of the images it'' @ nl @
     ''# was trained on.'' @ nl"

definition new_config_file_contents :: "catalog \<Rightarrow> env \<Rightarrow> world \<Rightarrow> string list \<Rightarrow> error + string" where
  "new_config_file_contents ds E w sd =
     (case OmegaConf_load E (files w) Config_file of
        Inl e \<Rightarrow> Inl e
      | Inr conf \<Rightarrow>
          (case new_config ds conf sd of
             Inl e \<Rightarrow> Inl e
           | Inr conf' \<Rightarrow> to_yaml E conf'))"

text \<open>
  \<^verbatim>\<open>update_config_file\<close>: every exception of the \<^verbatim>\<open>try\<close> block is caught and reported, so
  the function always returns; the result is the world it leaves behind. An exception
  inside the \<^verbatim>\<open>with\<close> block closes the temporary file and keeps what was written to it.
\<close>

definition tmpfile :: string where
  "tmpfile = os_path_join (os_path_dirname Config_file) ''new_config.tmp''"

definition config_error :: "world \<Rightarrow> (string \<rightharpoonup> string) \<Rightarrow> error \<Rightarrow> world" where
  "config_error w fs e = w\<lparr>files := fs, out := out w @ [ErrorCreatingConfig e]\<rparr>"

definition update_config_file :: "catalog \<Rightarrow> env \<Rightarrow> string list \<Rightarrow> world \<Rightarrow> world" where
  "update_config_file ds E sd w =
     (case new_config_file_contents ds E w sd of
        Inl e \<Rightarrow> config_error w (files w) e
      | Inr yaml \<Rightarrow>
          (case open_w E tmpfile (files w) of
             Inl e \<Rightarrow> config_error w (files w) e
           | Inr fs1 \<Rightarrow>
               (case file_write E tmpfile Config_preamble fs1 of
                  (Some e, fs2) \<Rightarrow> config_error w fs2 e
                | (None, fs2) \<Rightarrow>
                    (case file_write E tmpfile yaml fs2 of
                       (Some e, fs3) \<Rightarrow> config_error w fs3 e
                     | (None, fs3) \<Rightarrow>
                         (case os_rename E tmpfile Config_file fs3 of
                            Inl e \<Rightarrow> config_error w fs3 e
                          | Inr fs4 \<Rightarrow> w\<lparr>files := fs4, out := out w @ [ConfigCreated]\<rparr>)))))"

section \<open>The operator\<close>

text \<open>
  \<^verbatim>\<open>yes_or_no(prompt, default_yes)\<close>: reads one line; an empty line stands for the default
  answer. With \<^verbatim>\<open>default_yes\<close> everything that does not start with \<^verbatim>\<open>n\<close> or \<^verbatim>\<open>N\<close> is a yes,
  without it only what starts with \<^verbatim>\<open>y\<close> or \<^verbatim>\<open>Y\<close> is.
\<close>

definition yes_or_no :: "string \<Rightarrow> bool \<Rightarrow> world \<Rightarrow> (error + bool) \<times> world" where
  "yes_or_no prompt default_yes w =
     (case stdin w of
        [] \<Rightarrow> (Inl EOFError, w)
      | line # rest \<Rightarrow>
          (let default = (if default_yes then ''y'' else ''n'');
               response = (if line = [] then default else line);
               w' = w\<lparr>stdin := rest\<rparr>
           in case response of
                [] \<Rightarrow> (Inl IndexError, w')
              | c # _ \<Rightarrow>
                  (Inr (if default_yes then c \<notin> {CHR ''n'', CHR ''N''}
                        else c \<in> {CHR ''y'', CHR ''Y''}), w')))"

definition user_wants_to_download_weights :: "world \<Rightarrow> (error + bool) \<times> world" where
  "user_wants_to_download_weights w =
     yes_or_no ''Would you like to download the Stable Diffusion model weights now?'' True w"

text \<open>
  The \<^verbatim>\<open>for ds in Datasets.keys()\<close> loop of \<^verbatim>\<open>select_datasets\<close>: \<open>datasets\<close> maps each chosen
  name to its menu number.
\<close>

fun ask_each ::
  "catalog \<Rightarrow> string list \<Rightarrow> nat \<Rightarrow> (string \<times> nat) list \<Rightarrow> world
     \<Rightarrow> (error + (string \<times> nat) list) \<times> world" where
  "ask_each ds [] counter datasets w = (Inr datasets, w)"
| "ask_each ds (name # rest) counter datasets w =
     (case map_of ds name of
        None \<Rightarrow> (Inl (KeyError name), w)
      | Some d \<Rightarrow>
          (case yes_or_no ''    Download?'' (recommended d) w of
             (Inl e, w') \<Rightarrow> (Inl e, w')
           | (Inr yes, w') \<Rightarrow>
               ask_each ds rest (counter + 1)
                 (if yes then AList.update name counter datasets else datasets) w'))"

text \<open>
  \<^verbatim>\<open>select_datasets\<close>: the \<^verbatim>\<open>while not done\<close> loop. The result is the chosen plan, or
  \<^verbatim>\<open>None\<close> when the operator neither accepts the plan nor wants to change it. Each round
  reads at least one line, and the operator's input is finite, so the loop ends.
\<close>

function select_datasets :: "catalog \<Rightarrow> world \<Rightarrow> (error + (string \<times> nat) list option) \<times> world" where
  "select_datasets ds w =
     (case ask_each ds (map fst ds) 1 [] w of
        (Inl e, w1) \<Rightarrow> (Inl e, w1)
      | (Inr datasets, w1) \<Rightarrow>
          (case yes_or_no ''Ok to download?'' True w1 of
             (Inl e, w2) \<Rightarrow> (Inl e, w2)
           | (Inr ok_to_download, w2) \<Rightarrow>
               if \<not> ok_to_download then
                 (case yes_or_no ''Change your selection?'' True w2 of
                    (Inl e, w3) \<Rightarrow> (Inl e, w3)
                  | (Inr change, w3) \<Rightarrow>
                      if change then select_datasets ds w3 else (Inr None, w3))
               else (Inr (Some datasets), w2)))"
  by pat_completeness auto

lemma yes_or_no_stdin:
  "yes_or_no p b w = (Inr r, w') \<Longrightarrow> length (stdin w') < length (stdin w)"
  by (auto simp: yes_or_no_def Let_def split: list.splits if_splits)

lemma yes_or_no_stdin_le:
  "yes_or_no p b w = (r, w') \<Longrightarrow> length (stdin w') \<le> length (stdin w)"
  by (auto simp: yes_or_no_def Let_def split: list.splits if_splits)

lemma ask_each_stdin:
  "ask_each ds names c acc w = (r, w') \<Longrightarrow> length (stdin w') \<le> length (stdin w)"
proof (induction names arbitrary: c acc w)
  case Nil
  then show ?case by simp
next
  case (Cons n names)
  show ?case
  proof (cases "map_of ds n")
    case None
    with Cons.prems show ?thesis by simp
  next
    case (Some d)
    obtain r1 w1 where y: "yes_or_no ''    Download?'' (recommended d) w = (r1, w1)"
      by (cases "yes_or_no ''    Download?'' (recommended d) w")
    have le: "length (stdin w1) \<le> length (stdin w)"
      using y by (rule yes_or_no_stdin_le)
    show ?thesis
    proof (cases r1)
      case (Inl e)
      with Cons.prems Some y le show ?thesis by simp
    next
      case (Inr yes)
      with Cons.prems Some y
      have "ask_each ds names (c + 1) (if yes then AList.update n c acc else acc) w1 = (r, w')"
        by simp
      from Cons.IH [OF this] le show ?thesis by simp
    qed
  qed
qed

termination select_datasets
proof (relation "measure (\<lambda>(ds, w). length (stdin w))")
  show "wf (measure (\<lambda>(ds, w). length (stdin w)))" by simp
next
  fix ds w x1 w1 x2 w2 x3 w3 change
  assume a: "(x1, w1) = ask_each ds (map fst ds) 1 [] w"
    and b: "(x2, w2) = yes_or_no ''Ok to download?'' True w1"
    and c: "(x3, w3) = yes_or_no ''Change your selection?'' True w2"
    and d: "x3 = Inr change"
  have "length (stdin w1) \<le> length (stdin w)"
    using a [symmetric] by (rule ask_each_stdin)
  moreover have "length (stdin w2) \<le> length (stdin w1)"
    using b [symmetric] by (rule yes_or_no_stdin_le)
  moreover have "length (stdin w3) < length (stdin w2)"
    using c [symmetric] d by (auto dest: yes_or_no_stdin)
  ultimately show "((ds, w3), (ds, w)) \<in> measure (\<lambda>(ds, w). length (stdin w))"
    by simp
qed

text \<open>
  \<^verbatim>\<open>authenticate\<close>: waits for the enter key, then takes the token stored by \<^verbatim>\<open>HfFolder\<close>; if
  there is none, reads one (\<^verbatim>\<open>getpass\<close>, here the operator's next line) and stores it.
\<close>

definition authenticate :: "world \<Rightarrow> (error + string) \<times> world" where
  "authenticate w =
     (case stdin w of
        [] \<Rightarrow> (Inl EOFError, w)
      | _ # rest \<Rightarrow>
          (let w1 = w\<lparr>stdin := rest\<rparr>
           in case hf_token w1 of
                Some access_token \<Rightarrow> (Inr access_token, w1)
              | None \<Rightarrow>
                  (case stdin w1 of
                     [] \<Rightarrow> (Inl EOFError, w1)
                   | access_token # rest' \<Rightarrow>
                       (Inr access_token, w1\<lparr>stdin := rest', hf_token := Some access_token\<rparr>))))"

section \<open>Legacy migration and fetch\<close>

text \<open>The destination of a weight file: \<^verbatim>\<open>os.path.join(Model_dir, model_name)\<close>.\<close>

definition model_dest :: "string \<Rightarrow> string" where
  "model_dest model_name = os_path_join Model_dir model_name"

text \<open>The prompt \<^verbatim>\<open>f'Ok to rename it to "{new_name}" for future reference?'\<close>.\<close>

definition rename_prompt :: "string \<Rightarrow> string" where
  "rename_prompt new_name =
     ''Ok to rename it to '' @ [CHR 0x22] @ new_name @ [CHR 0x22] @ '' for future reference?''"

text \<open>
  \<^verbatim>\<open>migrate_models_ckpt\<close>. Neither the prompt nor \<^verbatim>\<open>os.rename\<close> is inside a \<^verbatim>\<open>try\<close>: their
  exceptions leave the function.
\<close>

definition migrate_models_ckpt :: "catalog \<Rightarrow> env \<Rightarrow> world \<Rightarrow> (error + unit) \<times> world" where
  "migrate_models_ckpt ds E w =
     (if files w (os_path_join Model_dir ''model.ckpt'') = None then (Inr (), w)
      else (case map_of ds ''stable-diffusion-1.4'' of
              None \<Rightarrow> (Inl (KeyError ''stable-diffusion-1.4''), w)
            | Some d \<Rightarrow>
                (let new_name = filename d;
                     w1 = w\<lparr>out := out w @ [LegacyFound]\<rparr>
                 in case yes_or_no (rename_prompt new_name) True w1 of
                      (Inl e, w2) \<Rightarrow> (Inl e, w2)
                    | (Inr rename, w2) \<Rightarrow>
                        if rename then
                          (let w3 = w2\<lparr>out := out w2 @ [LegacyRenamed new_name]\<rparr>
                           in case os_rename E (os_path_join Model_dir ''model.ckpt'')
                                     (os_path_join Model_dir new_name) (files w3) of
                                Inl e \<Rightarrow> (Inl e, w3)
                              | Inr fs \<Rightarrow> (Inr (), w3\<lparr>files := fs\<rparr>))
                        else (Inr (), w2))))"

text \<open>
  \<^verbatim>\<open>conditional_download\<close>. \<^verbatim>\<open>os.makedirs\<close> is outside the \<^verbatim>\<open>try\<close> block, so its exception
  leaves the function; everything raised by \<^verbatim>\<open>hf_hub_download\<close> and by \<^verbatim>\<open>link_to\<close> is
  caught, reported, and turned into the result \<^verbatim>\<open>False\<close>. The hub client writes the
  cache entry before it returns; \<^verbatim>\<open>path.resolve(strict=True)\<close> then finds it.
\<close>

definition conditional_download ::
  "env \<Rightarrow> string \<Rightarrow> string \<Rightarrow> string \<Rightarrow> world \<Rightarrow> (error + bool) \<times> world" where
  "conditional_download E repo model_name access_token w =
     (if files w (model_dest model_name) \<noteq> None
      then (Inr True, w\<lparr>out := out w @ [Exists model_name]\<rparr>)
      else (case makedirs_fault E (os_path_dirname (model_dest model_name)) of
              Some e \<Rightarrow> (Inl e, w)
            | None \<Rightarrow>
                (let w1 = w\<lparr>out := out w @ [Downloading model_name],
                            hub_calls := hub_calls w @ [(repo, model_name, access_token)]\<rparr>
                 in case hf_hub_download E (hub_calls w) repo model_name access_token of
                      Inl e \<Rightarrow> (Inr False, w1\<lparr>out := out w1 @ [ErrorDownloading model_name e]\<rparr>)
                    | Inr (path, content) \<Rightarrow>
                        (let w2 = w1\<lparr>files := (files w1)(path \<mapsto> content)\<rparr>
                         in case os_link E path (model_dest model_name) (files w2) of
                              Inl e \<Rightarrow>
                                (Inr False, w2\<lparr>out := out w2 @ [ErrorDownloading model_name e]\<rparr>)
                            | Inr fs \<Rightarrow> (Inr True, w2\<lparr>files := fs\<rparr>)))))"

text \<open>
  The \<^verbatim>\<open>for mod in models.keys()\<close> loop of \<^verbatim>\<open>download_weight_datasets\<close>; \<open>successful\<close> is
  the dictionary built so far.
\<close>

fun download_loop ::
  "catalog \<Rightarrow> env \<Rightarrow> string \<Rightarrow> string list \<Rightarrow> (string \<times> bool) list \<Rightarrow> world
     \<Rightarrow> (error + (string \<times> bool) list) \<times> world" where
  "download_loop ds E access_token [] successful w = (Inr successful, w)"
| "download_loop ds E access_token (model # rest) successful w =
     (case map_of ds model of
        None \<Rightarrow> (Inl (KeyError model), w)
      | Some d \<Rightarrow>
          (case conditional_download E (repo_id d) (filename d) access_token w of
             (Inl e, w') \<Rightarrow> (Inl e, w')
           | (Inr success, w') \<Rightarrow>
               download_loop ds E access_token rest
                 (if success then AList.update model True successful else successful) w'))"

text \<open>
  \<^verbatim>\<open>download_weight_datasets(models, access_token)\<close>. The main program may pass \<^verbatim>\<open>None\<close> for
  \<^verbatim>\<open>models\<close>; then \<^verbatim>\<open>models.keys()\<close> raises, after the migration has run.
\<close>

definition download_weight_datasets ::
  "catalog \<Rightarrow> env \<Rightarrow> (string \<times> nat) list option \<Rightarrow> string \<Rightarrow> world
     \<Rightarrow> (error + (string \<times> bool) list) \<times> world" where
  "download_weight_datasets ds E models access_token w =
     (case migrate_models_ckpt ds E w of
        (Inl e, w1) \<Rightarrow> (Inl e, w1)
      | (Inr _, w1) \<Rightarrow>
          (case models of
             None \<Rightarrow> (Inl (AttributeError ''keys''), w1)
           | Some plan \<Rightarrow>
               (case download_loop ds E access_token (map fst plan) [] w1 of
                  (Inl e, w2) \<Rightarrow> (Inl e, w2)
                | (Inr successful, w2) \<Rightarrow>
                    (Inr successful,
                     w2\<lparr>out := out w2 @ [SuccessfullyInstalled (map fst successful)]\<rparr>))))"

section \<open>The main program\<close>

text \<open>
  How a run ends: it runs to the end, it leaves through \<^verbatim>\<open>sys.exit\<close>, or an exception
  reaches the top (the main program catches \<^verbatim>\<open>KeyboardInterrupt\<close> only).
\<close>

datatype outcome = Completed | SysExit int | Uncaught error

text \<open>
  Lines 442 to 446: license, token, download, config. They run with whatever
  \<^verbatim>\<open>select_datasets\<close> returned.
\<close>

definition license_and_download ::
  "catalog \<Rightarrow> env \<Rightarrow> (string \<times> nat) list option \<Rightarrow> world \<Rightarrow> (outcome + unit) \<times> world" where
  "license_and_download ds E models w =
     (case authenticate w of
        (Inl e, w1) \<Rightarrow> (Inl (Uncaught e), w1)
      | (Inr access_token, w1) \<Rightarrow>
          (case download_weight_datasets ds E models access_token w1 of
             (Inl e, w2) \<Rightarrow> (Inl (Uncaught e), w2)
           | (Inr successfully_downloaded, w2) \<Rightarrow>
               (Inr (), update_config_file ds E (map fst successfully_downloaded) w2)))"

text \<open>Lines 438 to 446, the body of \<^verbatim>\<open>if user_wants_to_download_weights():\<close>.\<close>

definition download_weights :: "catalog \<Rightarrow> env \<Rightarrow> world \<Rightarrow> (outcome + unit) \<times> world" where
  "download_weights ds E w =
     (case select_datasets ds w of
        (Inl e, w1) \<Rightarrow> (Inl (Uncaught e), w1)
      | (Inr models, w1) \<Rightarrow>
          (case models of
             None \<Rightarrow>
               (case yes_or_no ''Quit?'' False w1 of
                  (Inl e, w2) \<Rightarrow> (Inl (Uncaught e), w2)
                | (Inr quit, w2) \<Rightarrow>
                    if quit then (Inl (SysExit 0), w2)
                    else license_and_download ds E models w2)
           | Some _ \<Rightarrow> license_and_download ds E models w1))"

definition main :: "catalog \<Rightarrow> env \<Rightarrow> world \<Rightarrow> outcome \<times> world" where
  "main ds E w =
     (case user_wants_to_download_weights w of
        (Inl e, w1) \<Rightarrow> (Uncaught e, w1)
      | (Inr wants, w1) \<Rightarrow>
          (case (if wants then download_weights ds E w1 else (Inr (), w1)) of
             (Inl stop, w2) \<Rightarrow> (stop, w2)
           | (Inr _, w2) \<Rightarrow>
               (case support_models E w2 of
                  (Inl e, w3) \<Rightarrow> (Uncaught e, w3)
                | (Inr _, w3) \<Rightarrow> (Completed, w3))))"

section \<open>Notions used in the statements\<close>

text \<open>
  The kind of a success-set name: a MODEL-kind artifact is a catalog entry whose
  \<^verbatim>\<open>'config'\<close> is not \<^verbatim>\<open>'VAE'\<close>; \<open>aux_decoders\<close> lists the descriptors of the
  \<^verbatim>\<open>AUXILIARY_DECODER\<close> artifacts of a success set, in iteration order.
\<close>

definition is_model :: "catalog \<Rightarrow> string \<Rightarrow> bool" where
  "is_model ds m = (case map_of ds m of Some d \<Rightarrow> config d \<noteq> ''VAE'' | None \<Rightarrow> False)"

fun aux_decoders :: "catalog \<Rightarrow> string list \<Rightarrow> descriptor list" where
  "aux_decoders ds [] = []"
| "aux_decoders ds (m # sd) =
     (case map_of ds m of
        None \<Rightarrow> aux_decoders ds sd
      | Some d \<Rightarrow> if config d = ''VAE'' then d # aux_decoders ds sd else aux_decoders ds sd)"

text \<open>A value that is a mapping, and the fields of a stanza (none if it is not a mapping).\<close>

definition is_dict :: "yval \<Rightarrow> bool" where
  "is_dict v = (case v of VDict _ \<Rightarrow> True | _ \<Rightarrow> False)"

definition fields :: "yval \<Rightarrow> string \<Rightarrow> yval option" where
  "fields v = (case v of VDict s \<Rightarrow> map_of s | _ \<Rightarrow> Map.empty)"

text \<open>
  The inputs on which synthesis raises nothing: the success set is the key list of a
  dictionary (no name twice), every name is in the catalog, and whatever the loaded
  configuration holds under the name of a MODEL-kind artifact is a mapping.
\<close>

definition synthesis_ready :: "catalog \<Rightarrow> conf \<Rightarrow> string list \<Rightarrow> bool" where
  "synthesis_ready ds conf sd =
     (distinct sd \<and>
      list_all (\<lambda>m. case map_of ds m of
                       None \<Rightarrow> False
                     | Some d \<Rightarrow> config d = ''VAE'' \<or> is_dict (get_stanza conf m)) sd)"

text \<open>The first MODEL-kind artifact of a success set.\<close>

fun first_model :: "catalog \<Rightarrow> string list \<Rightarrow> string option" where
  "first_model ds [] = None"
| "first_model ds (m # sd) = (if is_model ds m then Some m else first_model ds sd)"

text \<open>The names of the stanzas that carry \<^verbatim>\<open>default: true\<close>, in file order.\<close>

definition default_stanzas :: "conf \<Rightarrow> string list" where
  "default_stanzas conf = map fst (filter (\<lambda>(name, v). fields v ''default'' = Some (VBool True)) conf)"

text \<open>
  A configuration as an operator may have edited it, and the configurations the tool
  itself writes in two successive runs.
\<close>

definition example_conf :: conf where
  "example_conf =
     [(''stable-diffusion-1.5'',
         VDict [(''description'', VStr ''my notes''), (''custom'', VInt 7),
                (''default'', VBool True)]),
      (''my-model'', VDict [(''weights'', VStr ''mine.ckpt'')])]"

definition first_run_conf :: conf where
  "first_run_conf =
     [(''stable-diffusion-1.5'',
       VDict
        [(''description'', VStr ''The newest Stable Diffusion version 1.5 weight file (4.27 GB)''),
         (''weights'', VStr ''./models/ldm/stable-diffusion-v1/v1-5-pruned-emaonly.ckpt''),
         (''config'', VStr ''./configs/stable-diffusion/v1-inference.yaml''),
         (''width'', VInt 512), (''height'', VInt 512),
         (''default'', VBool True)])]"

definition second_run_conf :: conf where
  "second_run_conf =
     [(''stable-diffusion-1.5'',
       VDict
        [(''description'', VStr ''The newest Stable Diffusion version 1.5 weight file (4.27 GB)''),
         (''weights'', VStr ''./models/ldm/stable-diffusion-v1/v1-5-pruned-emaonly.ckpt''),
         (''config'', VStr ''./configs/stable-diffusion/v1-inference.yaml''),
         (''width'', VInt 512), (''height'', VInt 512),
         (''default'', VBool True)]),
      (''inpainting-1.5'',
       VDict
        [(''description'', VStr ''RunwayML SD 1.5 model optimized for inpainting (4.27 GB)''),
         (''weights'', VStr ''./models/ldm/stable-diffusion-v1/sd-v1-5-inpainting.ckpt''),
         (''config'', VStr ''./configs/stable-diffusion/v1-inpainting-inference.yaml''),
         (''width'', VInt 512), (''height'', VInt 512),
         (''default'', VBool True)])]"

text \<open>
  Environments and worlds for the examples. In \<open>quiet_env\<close> no file system call is
  refused and the hub serves every file but \<^verbatim>\<open>sd-v1-5-inpainting.ckpt\<close>; its YAML reader
  knows one document, \<^verbatim>\<open>old\<close>, which it reads as \<open>example_conf\<close>, and its writer lists
  the stanza names. In \<open>disk_full_env\<close> every write stops after three characters.
  \<open>fresh_world\<close> has no file at all, \<open>installed_world\<close> has the configuration file.
\<close>

definition quiet_env :: env where
  "quiet_env =
     \<lparr>yaml_load = (\<lambda>txt. if txt = ''old'' then Inr example_conf else Inl (YamlError txt)),
      to_yaml = (\<lambda>conf. Inr (concat (map fst conf))),
      open_fault = (\<lambda>_. None),
      write_fault = (\<lambda>_ _. None),
      rename_fault = (\<lambda>_ _. None),
      makedirs_fault = (\<lambda>_. None),
      link_fault = (\<lambda>_ _. None),
      hf_hub_download =
        (\<lambda>calls repo name token.
           if name = ''sd-v1-5-inpainting.ckpt'' then Inl (HubError ''404 Not Found'')
           else Inr (''cache/'' @ name, ''weights of '' @ name)),
      support_models = (\<lambda>w. (Inr (), w))\<rparr>"

definition disk_full_env :: env where
  "disk_full_env = quiet_env\<lparr>write_fault := (\<lambda>_ _. Some (3, OSError ''No space left on device''))\<rparr>"

definition fresh_world :: "string list \<Rightarrow> world" where
  "fresh_world answers =
     \<lparr>files = Map.empty, hub_calls = [], out = [], hf_token = Some ''hf_secret'',
      stdin = answers\<rparr>"

definition installed_world :: "string list \<Rightarrow> world" where
  "installed_world answers = (fresh_world answers)\<lparr>files := [Config_file \<mapsto> ''old'']\<rparr>"

text \<open>
  The file names for which a fetch was started, read off the messages: every call of
  \<^verbatim>\<open>conditional_download\<close> that returns prints either \<open>Exists\<close> or \<open>Downloading\<close> first.
  \<open>plan_files\<close> lists the file names of a plan.
\<close>

fun attempts :: "event list \<Rightarrow> string list" where
  "attempts [] = []"
| "attempts (Exists f # es) = f # attempts es"
| "attempts (Downloading f # es) = f # attempts es"
| "attempts (e # es) = attempts es"

fun plan_files :: "catalog \<Rightarrow> string list \<Rightarrow> string list" where
  "plan_files ds [] = []"
| "plan_files ds (m # ms) =
     (case map_of ds m of
        None \<Rightarrow> plan_files ds ms
      | Some d \<Rightarrow> filename d # plan_files ds ms)"

text \<open>The deprecated path of the original weight file.\<close>

definition legacy_ckpt :: string where
  "legacy_ckpt = os_path_join Model_dir ''model.ckpt''"

text \<open>Two worlds that differ at most in the input still to be read.\<close>

definition only_reads_input :: "world \<Rightarrow> world \<Rightarrow> bool" where
  "only_reads_input w w' =
     (files w' = files w \<and> hub_calls w' = hub_calls w \<and> out w' = out w \<and>
      hf_token w' = hf_token w)"

text \<open>
  A plan of three artifacts, and a world in which the weight file still has its
  deprecated name.
\<close>

definition three_models :: "(string \<times> nat) list" where
  "three_models = [(''stable-diffusion-1.5'', 1), (''inpainting-1.5'', 2), (''stable-diffusion-1.4'', 3)]"

definition legacy_world :: "string list \<Rightarrow> world" where
  "legacy_world answers =
     (fresh_world answers)
       \<lparr>files := [Config_file \<mapsto> ''old'', legacy_ckpt \<mapsto> ''weights of 1.4'']\<rparr>"

section \<open>Properties of config synthesis\<close>

subsection \<open>What the assignments do to one stanza\<close>

lemma fill_stanza_unmanaged:
  "f \<notin> {''description'', ''weights'', ''config'', ''width'', ''height'', ''default'', ''vae''}
   \<Longrightarrow> map_of (fill_stanza d vae b s) f = map_of s f"
  by (simp add: fill_stanza_def Let_def update_conv' delete_conv' split: option.splits)

lemma fill_stanza_vae:
  "map_of (fill_stanza d vae b s) ''vae'' =
     (case vae of None \<Rightarrow> map_of s ''vae''
      | Some v \<Rightarrow> if v = [] then map_of s ''vae'' else Some (VStr (os_path_join Model_dir v)))"
  by (simp add: fill_stanza_def Let_def update_conv' delete_conv' split: option.splits)

lemma fill_stanza_default:
  "map_of (fill_stanza d vae b s) ''default'' = (if b then None else Some (VBool True))"
  by (simp add: fill_stanza_def Let_def update_conv' delete_conv' split: option.splits)

lemma fill_stanza_managed:
  "map_of (fill_stanza d vae b s) ''description'' = Some (VStr (description d))"
  "map_of (fill_stanza d vae b s) ''weights'' = Some (VStr (os_path_join Model_dir (filename d)))"
  "map_of (fill_stanza d vae b s) ''config'' = Some (VStr (os_path_join SD_Configs (config d)))"
  "map_of (fill_stanza d vae b s) ''width'' = Some (VInt (width d))"
  "map_of (fill_stanza d vae b s) ''height'' = Some (VInt (height d))"
  by (simp_all add: fill_stanza_def Let_def update_conv' delete_conv' split: option.splits)

lemma find_vae_gen:
  "list_all (\<lambda>m. map_of ds m \<noteq> None) sd \<Longrightarrow>
   find_vae ds sd v =
     Inr (if aux_decoders ds sd = [] then v else Some (filename (last (aux_decoders ds sd))))"
  by (induction sd arbitrary: v) auto

lemma get_stanza_update:
  "get_stanza (AList.update m (VDict x) conf) m' = (if m' = m then VDict x else get_stanza conf m')"
  by (simp add: get_stanza_def conf_contains_def update_conv')

lemma get_stanza_existing:
  "map_of conf m = Some (VDict s) \<Longrightarrow> get_stanza conf m = VDict s"
  by (simp add: get_stanza_def conf_contains_def)

lemma is_dict_iff: "is_dict v \<longleftrightarrow> (\<exists>s. v = VDict s)"
  by (cases v) (simp_all add: is_dict_def)

lemma stanza_loop_returns:
  "list_all (\<lambda>m. case map_of ds m of None \<Rightarrow> False
                  | Some d \<Rightarrow> config d = ''VAE'' \<or> is_dict (get_stanza conf m)) sd
   \<Longrightarrow> \<exists>conf'. stanza_loop ds vae sd b conf = Inr conf'"
proof (induction sd arbitrary: b conf)
  case Nil
  then show ?case by simp
next
  case (Cons m sd)
  from Cons.prems obtain d where d: "map_of ds m = Some d"
    and here: "config d = ''VAE'' \<or> is_dict (get_stanza conf m)"
    by (auto split: option.splits)
  from Cons.prems have rest: "list_all (\<lambda>m. case map_of ds m of None \<Rightarrow> False
                  | Some d \<Rightarrow> config d = ''VAE'' \<or> is_dict (get_stanza conf m)) sd"
    by simp
  show ?case
  proof (cases "config d = ''VAE''")
    case True
    with d Cons.IH [OF rest] show ?thesis by simp
  next
    case False
    with here obtain s where s: "get_stanza conf m = VDict s"
      by (auto simp: is_dict_iff)
    let ?conf1 = "AList.update m (VDict (fill_stanza d vae b s)) conf"
    have "list_all (\<lambda>m. case map_of ds m of None \<Rightarrow> False
                  | Some d \<Rightarrow> config d = ''VAE'' \<or> is_dict (get_stanza ?conf1 m)) sd"
      using rest by (auto simp: list_all_iff get_stanza_update is_dict_def split: option.splits)
    from Cons.IH [OF this] d False s show ?thesis by simp
  qed
qed

lemma stanza_loop_frame:
  "stanza_loop ds vae sd b conf = Inr conf' \<Longrightarrow> m \<notin> set sd \<Longrightarrow> map_of conf' m = map_of conf m"
proof (induction sd arbitrary: b conf)
  case Nil
  then show ?case by simp
next
  case (Cons a sd)
  then show ?case
    by (auto simp: update_conv' split: option.splits if_splits yval.splits)
qed

lemma stanza_loop_stanza:
  assumes "stanza_loop ds vae sd b conf = Inr conf'"
    and "distinct sd" and "m \<in> set sd" and "map_of ds m = Some d" and "config d \<noteq> ''VAE''"
  shows "\<exists>s. get_stanza conf m = VDict s \<and>
             map_of conf' m = Some (VDict (fill_stanza d vae (b \<or> first_model ds sd \<noteq> Some m) s))"
  using assms
proof (induction sd arbitrary: b conf)
  case Nil
  then show ?case by simp
next
  case (Cons a sd)
  show ?case
  proof (cases "a = m")
    case True
    from Cons.prems True obtain s where s: "get_stanza conf m = VDict s"
      and run: "stanza_loop ds vae sd True (AList.update m (VDict (fill_stanza d vae b s)) conf) = Inr conf'"
      by (auto split: yval.splits)
    from Cons.prems True have "m \<notin> set sd" by simp
    from stanza_loop_frame [OF run this]
    have "map_of conf' m = Some (VDict (fill_stanza d vae b s))"
      by (simp add: update_conv')
    moreover have "first_model ds (a # sd) = Some m"
      using True Cons.prems by (simp add: is_model_def)
    ultimately show ?thesis using s by simp
  next
    case False
    with Cons.prems have m: "m \<in> set sd" and dist: "distinct sd" by auto
    from Cons.prems obtain da where da: "map_of ds a = Some da"
      by (auto split: option.splits)
    show ?thesis
    proof (cases "config da = ''VAE''")
      case True
      with Cons.prems da have run: "stanza_loop ds vae sd b conf = Inr conf'" by simp
      from Cons.IH [OF run dist m Cons.prems(4,5)] True da show ?thesis
        by (simp add: is_model_def)
    next
      case isModel: False
      with Cons.prems da obtain sa where
        run: "stanza_loop ds vae sd True (AList.update a (VDict (fill_stanza da vae b sa)) conf) = Inr conf'"
        by (auto split: yval.splits)
      from Cons.IH [OF run dist m Cons.prems(4,5)] False isModel da show ?thesis
        by (simp add: is_model_def get_stanza_update)
    qed
  qed
qed

lemma stanza_loop_skips:
  "stanza_loop ds vae sd b conf = Inr conf' \<Longrightarrow> \<not> (m \<in> set sd \<and> is_model ds m)
   \<Longrightarrow> map_of conf' m = map_of conf m"
proof (induction sd arbitrary: b conf)
  case Nil
  then show ?case by simp
next
  case (Cons a sd)
  then show ?case
    by (auto simp: update_conv' is_model_def split: option.splits if_splits yval.splits)
qed

lemma new_config_returns:
  assumes "synthesis_ready ds conf sd"
  shows "\<exists>conf'. new_config ds conf sd = Inr conf' \<and>
           stanza_loop ds (if aux_decoders ds sd = [] then None
                           else Some (filename (last (aux_decoders ds sd)))) sd False conf = Inr conf'"
proof -
  from assms have known: "list_all (\<lambda>m. map_of ds m \<noteq> None) sd"
    by (auto simp: synthesis_ready_def list_all_iff split: option.splits)
  from assms have "list_all (\<lambda>m. case map_of ds m of None \<Rightarrow> False
                  | Some d \<Rightarrow> config d = ''VAE'' \<or> is_dict (get_stanza conf m)) sd"
    by (simp add: synthesis_ready_def)
  from stanza_loop_returns [OF this] find_vae_gen [OF known, of None]
  show ?thesis by (simp add: new_config_def)
qed

lemma example_ready:
  "synthesis_ready Datasets example_conf
     [''stable-diffusion-1.5'', ''inpainting-1.5'', ''ft-mse-improved-autoencoder-840000'']"
  by code_simp

lemma example_named:
  "list_all (\<lambda>d. filename d \<noteq> [])
     (aux_decoders Datasets
        [''stable-diffusion-1.5'', ''inpainting-1.5'', ''ft-mse-improved-autoencoder-840000''])"
  by code_simp

subsection \<open>The auxiliary decoder path\<close>

text \<open>
  Claim C7. On every input on which synthesis raises nothing, synthesis returns a
  configuration in which the stanza of every MODEL-kind artifact of the success set has
  a \<^verbatim>\<open>vae\<close> field equal to the local path (\<open>model_dest\<close> of the file name) of the last
  \<^verbatim>\<open>AUXILIARY_DECODER\<close> artifact of the success set in iteration order, provided that
  artifact has a file name; when the success set has no \<^verbatim>\<open>AUXILIARY_DECODER\<close> artifact,
  the \<^verbatim>\<open>vae\<close> field of the stanza is what it was before the run (absent for a new stanza):
  synthesis sets none.
\<close>

theorem vae_path_last_seen_wins:
  assumes ready: "synthesis_ready ds conf sd"
    and named: "list_all (\<lambda>d. filename d \<noteq> []) (aux_decoders ds sd)"
  shows "\<exists>conf'. new_config ds conf sd = Inr conf' \<and>
          (\<forall>m\<in>set sd. is_model ds m \<longrightarrow>
             (\<exists>s'. map_of conf' m = Some (VDict s') \<and>
                   map_of s' ''vae'' =
                     (if aux_decoders ds sd = [] then fields (get_stanza conf m) ''vae''
                      else Some (VStr (model_dest (filename (last (aux_decoders ds sd))))))))"
proof -
  let ?vae = "if aux_decoders ds sd = [] then None
              else Some (filename (last (aux_decoders ds sd)))"
  from new_config_returns [OF ready] obtain conf' where
    nc: "new_config ds conf sd = Inr conf'" and
    loop: "stanza_loop ds ?vae sd False conf = Inr conf'"
    by blast
  from ready have dist: "distinct sd" by (simp add: synthesis_ready_def)
  have named': "aux_decoders ds sd \<noteq> [] \<Longrightarrow> filename (last (aux_decoders ds sd)) \<noteq> []"
    using named by (simp add: list_all_iff)
  have "\<forall>m\<in>set sd. is_model ds m \<longrightarrow>
             (\<exists>s'. map_of conf' m = Some (VDict s') \<and>
                   map_of s' ''vae'' =
                     (if aux_decoders ds sd = [] then fields (get_stanza conf m) ''vae''
                      else Some (VStr (model_dest (filename (last (aux_decoders ds sd)))))))"
  proof (intro ballI impI)
    fix m
    assume m: "m \<in> set sd" and model: "is_model ds m"
    from model obtain d where d: "map_of ds m = Some d" "config d \<noteq> ''VAE''"
      by (auto simp: is_model_def split: option.splits)
    from stanza_loop_stanza [OF loop dist m d] obtain s b' where
      s: "get_stanza conf m = VDict s" and
      c': "map_of conf' m = Some (VDict (fill_stanza d ?vae b' s))"
      by blast
    have "map_of (fill_stanza d ?vae b' s) ''vae'' =
            (if aux_decoders ds sd = [] then fields (get_stanza conf m) ''vae''
             else Some (VStr (model_dest (filename (last (aux_decoders ds sd))))))"
      using named' s by (simp add: fill_stanza_vae fields_def model_dest_def)
    with c' show "\<exists>s'. map_of conf' m = Some (VDict s') \<and>
                   map_of s' ''vae'' =
                     (if aux_decoders ds sd = [] then fields (get_stanza conf m) ''vae''
                      else Some (VStr (model_dest (filename (last (aux_decoders ds sd))))))"
      by (intro exI [of _ "fill_stanza d ?vae b' s"] conjI)
  qed
  with nc show ?thesis by (intro exI [of _ conf'] conjI)
qed

theorem vae_path_last_seen_wins_witness:
  "synthesis_ready Datasets example_conf
     [''stable-diffusion-1.5'', ''inpainting-1.5'', ''ft-mse-improved-autoencoder-840000''] \<and>
   list_all (\<lambda>d. filename d \<noteq> [])
     (aux_decoders Datasets
        [''stable-diffusion-1.5'', ''inpainting-1.5'', ''ft-mse-improved-autoencoder-840000'']) \<and>
   (\<exists>conf'. new_config Datasets example_conf
        [''stable-diffusion-1.5'', ''inpainting-1.5'', ''ft-mse-improved-autoencoder-840000'']
          = Inr conf' \<and>
      (\<forall>m\<in>set [''stable-diffusion-1.5'', ''inpainting-1.5'',
                 ''ft-mse-improved-autoencoder-840000''].
          is_model Datasets m \<longrightarrow>
            (\<exists>s'. map_of conf' m = Some (VDict s') \<and>
                  map_of s' ''vae'' =
                    Some (VStr ''./models/ldm/stable-diffusion-v1/vae-ft-mse-840000-ema-pruned.ckpt''))))"
proof -
  have last: "aux_decoders Datasets
        [''stable-diffusion-1.5'', ''inpainting-1.5'', ''ft-mse-improved-autoencoder-840000'']
      = [\<lparr>description = ''StabilityAI improved autoencoder fine-tuned for human faces (recommended; 335 MB)'',
         repo_id = ''stabilityai/sd-vae-ft-mse-original'',
         config = ''VAE'',
         filename = ''vae-ft-mse-840000-ema-pruned.ckpt'',
         recommended = True, width = 512, height = 512\<rparr>]"
    by code_simp
  have dest: "model_dest ''vae-ft-mse-840000-ema-pruned.ckpt''
     = ''./models/ldm/stable-diffusion-v1/vae-ft-mse-840000-ema-pruned.ckpt''"
    by code_simp
  from vae_path_last_seen_wins [OF example_ready example_named] example_ready example_named
  show ?thesis
    unfolding last by (simp add: dest)
qed

subsection \<open>Merge of an existing stanza\<close>

text \<open>
  Claim C6. For a stanza \<open>s\<close> that the loaded configuration holds under a name \<open>m\<close> of
  the success set, the configuration returned by synthesis holds under \<open>m\<close> a stanza that
  agrees with \<open>s\<close> on every field other than \<^verbatim>\<open>description\<close>, \<^verbatim>\<open>weights\<close>, \<^verbatim>\<open>config\<close>,
  \<^verbatim>\<open>width\<close>, \<^verbatim>\<open>height\<close>, \<^verbatim>\<open>default\<close> and \<^verbatim>\<open>vae\<close>; \<^verbatim>\<open>vae\<close> is kept as well when the success
  set has no auxiliary decoder; the five fields named first take the catalog's values;
  the stanza of an \<^verbatim>\<open>AUXILIARY_DECODER\<close> name is not touched at all.
\<close>

theorem merge_preserves_unmanaged_fields:
  assumes ready: "synthesis_ready ds conf sd"
    and m: "m \<in> set sd" and d: "map_of ds m = Some d"
    and existing: "map_of conf m = Some (VDict s)"
  shows "\<exists>conf' s'. new_config ds conf sd = Inr conf' \<and> map_of conf' m = Some (VDict s') \<and>
           (\<forall>f. f \<notin> {''description'', ''weights'', ''config'', ''width'', ''height'',
                      ''default'', ''vae''} \<longrightarrow> map_of s' f = map_of s f) \<and>
           (aux_decoders ds sd = [] \<longrightarrow> map_of s' ''vae'' = map_of s ''vae'') \<and>
           (config d = ''VAE'' \<longrightarrow> s' = s) \<and>
           (config d \<noteq> ''VAE'' \<longrightarrow>
              map_of s' ''description'' = Some (VStr (description d)) \<and>
              map_of s' ''weights'' = Some (VStr (os_path_join Model_dir (filename d))) \<and>
              map_of s' ''config'' = Some (VStr (os_path_join SD_Configs (config d))) \<and>
              map_of s' ''width'' = Some (VInt (width d)) \<and>
              map_of s' ''height'' = Some (VInt (height d)))"
proof -
  let ?vae = "if aux_decoders ds sd = [] then None
              else Some (filename (last (aux_decoders ds sd)))"
  from new_config_returns [OF ready] obtain conf' where
    nc: "new_config ds conf sd = Inr conf'" and
    loop: "stanza_loop ds ?vae sd False conf = Inr conf'"
    by blast
  from ready have dist: "distinct sd" by (simp add: synthesis_ready_def)
  show ?thesis
  proof (cases "config d = ''VAE''")
    case True
    with d have "\<not> (m \<in> set sd \<and> is_model ds m)" by (simp add: is_model_def)
    from stanza_loop_skips [OF loop this] existing True nc show ?thesis by simp
  next
    case False
    from stanza_loop_stanza [OF loop dist m d False] obtain s0 b' where
      s0: "get_stanza conf m = VDict s0" and
      c': "map_of conf' m = Some (VDict (fill_stanza d ?vae b' s0))"
      by blast
    from s0 existing have "s0 = s" by (simp add: get_stanza_existing)
    with c' nc False show ?thesis
      by (simp add: fill_stanza_unmanaged fill_stanza_managed fill_stanza_vae)
  qed
qed

theorem merge_preserves_unmanaged_fields_witness:
  "synthesis_ready Datasets example_conf
     [''stable-diffusion-1.5'', ''inpainting-1.5'', ''ft-mse-improved-autoencoder-840000''] \<and>
   ''stable-diffusion-1.5'' \<in> set [''stable-diffusion-1.5'', ''inpainting-1.5'',
       ''ft-mse-improved-autoencoder-840000''] \<and>
   map_of Datasets ''stable-diffusion-1.5'' =
     Some \<lparr>description = ''The newest Stable Diffusion version 1.5 weight file (4.27 GB)'',
           repo_id = ''runwayml/stable-diffusion-v1-5'',
           config = ''v1-inference.yaml'',
           filename = ''v1-5-pruned-emaonly.ckpt'',
           recommended = True, width = 512, height = 512\<rparr> \<and>
   map_of example_conf ''stable-diffusion-1.5'' =
     Some (VDict [(''description'', VStr ''my notes''), (''custom'', VInt 7),
                  (''default'', VBool True)]) \<and>
   (\<exists>conf' s'. new_config Datasets example_conf
        [''stable-diffusion-1.5'', ''inpainting-1.5'', ''ft-mse-improved-autoencoder-840000'']
          = Inr conf' \<and>
      map_of conf' ''stable-diffusion-1.5'' = Some (VDict s') \<and>
      map_of s' ''custom'' = Some (VInt 7) \<and>
      map_of s' ''description'' =
        Some (VStr ''The newest Stable Diffusion version 1.5 weight file (4.27 GB)''))"
proof -
  have m: "''stable-diffusion-1.5'' \<in> set [''stable-diffusion-1.5'', ''inpainting-1.5'',
       ''ft-mse-improved-autoencoder-840000'']"
    by simp
  have d: "map_of Datasets ''stable-diffusion-1.5'' =
     Some \<lparr>description = ''The newest Stable Diffusion version 1.5 weight file (4.27 GB)'',
           repo_id = ''runwayml/stable-diffusion-v1-5'',
           config = ''v1-inference.yaml'',
           filename = ''v1-5-pruned-emaonly.ckpt'',
           recommended = True, width = 512, height = 512\<rparr>"
    by (simp add: Datasets_def)
  have s: "map_of example_conf ''stable-diffusion-1.5'' =
     Some (VDict [(''description'', VStr ''my notes''), (''custom'', VInt 7),
                  (''default'', VBool True)])"
    by (simp add: example_conf_def)
  from merge_preserves_unmanaged_fields [OF example_ready m d s] obtain conf' s' where
    "new_config Datasets example_conf
        [''stable-diffusion-1.5'', ''inpainting-1.5'', ''ft-mse-improved-autoencoder-840000'']
          = Inr conf'"
    "map_of conf' ''stable-diffusion-1.5'' = Some (VDict s')"
    "\<forall>f. f \<notin> {''description'', ''weights'', ''config'', ''width'', ''height'',
                      ''default'', ''vae''} \<longrightarrow> map_of s' f =
       map_of [(''description'', VStr ''my notes''), (''custom'', VInt 7),
                  (''default'', VBool True)] f"
    "map_of s' ''description'' =
        Some (VStr ''The newest Stable Diffusion version 1.5 weight file (4.27 GB)'')"
    by auto
  moreover from this(3) have "map_of s' ''custom'' = Some (VInt 7)"
    by simp
  ultimately show ?thesis using example_ready m d s by blast
qed

subsection \<open>The default flag across two runs\<close>

text \<open>
  Within the success set the flag is as the comments of the source say: the stanza of
  the first MODEL-kind artifact carries \<^verbatim>\<open>default: true\<close>, the stanzas of the others carry
  no \<^verbatim>\<open>default\<close> field.
\<close>

lemma default_flag_within_success_set:
  assumes ready: "synthesis_ready ds conf sd"
    and m: "m \<in> set sd" and model: "is_model ds m"
  shows "\<exists>conf' s'. new_config ds conf sd = Inr conf' \<and> map_of conf' m = Some (VDict s') \<and>
           map_of s' ''default'' =
             (if first_model ds sd = Some m then Some (VBool True) else None)"
proof -
  let ?vae = "if aux_decoders ds sd = [] then None
              else Some (filename (last (aux_decoders ds sd)))"
  from new_config_returns [OF ready] obtain conf' where
    nc: "new_config ds conf sd = Inr conf'" and
    loop: "stanza_loop ds ?vae sd False conf = Inr conf'"
    by blast
  from ready have dist: "distinct sd" by (simp add: synthesis_ready_def)
  from model obtain d where d: "map_of ds m = Some d" "config d \<noteq> ''VAE''"
    by (auto simp: is_model_def split: option.splits)
  from stanza_loop_stanza [OF loop dist m d] obtain s where
    c': "map_of conf' m =
           Some (VDict (fill_stanza d ?vae (False \<or> first_model ds sd \<noteq> Some m) s))"
    by blast
  have "map_of (fill_stanza d ?vae (False \<or> first_model ds sd \<noteq> Some m) s) ''default'' =
          (if first_model ds sd = Some m then Some (VBool True) else None)"
    by (simp add: fill_stanza_default)
  with nc c' show ?thesis by blast
qed

text \<open>
  Claim C2, evaluated on the code. A first run with the success set
  \<^verbatim>\<open>stable-diffusion-1.5\<close> on an empty configuration writes \<open>first_run_conf\<close>, with one
  default. A second run on that configuration with the success set \<^verbatim>\<open>inpainting-1.5\<close>
  writes \<open>second_run_conf\<close>, in which both stanzas carry \<^verbatim>\<open>default: true\<close>: the flag is
  removed only from the stanzas of the current success set.
\<close>

theorem two_runs_two_defaults:
  "new_config Datasets [] [''stable-diffusion-1.5''] = Inr first_run_conf \<and>
   new_config Datasets first_run_conf [''inpainting-1.5''] = Inr second_run_conf \<and>
   default_stanzas second_run_conf = [''stable-diffusion-1.5'', ''inpainting-1.5'']"
  by code_simp

section \<open>Properties of \<^verbatim>\<open>update_config_file\<close>\<close>

lemma tmpfile_neq: "tmpfile \<noteq> Config_file"
  by code_simp

lemma open_w_frame: "open_w E tmpfile fs = Inr fs' \<Longrightarrow> fs' Config_file = fs Config_file"
  using tmpfile_neq by (auto simp: open_w_def split: option.splits)

lemma file_write_frame:
  "file_write E tmpfile data fs = (r, fs') \<Longrightarrow> fs' Config_file = fs Config_file"
  using tmpfile_neq by (auto simp: file_write_def Let_def split: option.splits)

lemma update_config_file_cases:
  "(\<exists>e fs. update_config_file ds E sd w = config_error w fs e \<and>
           fs Config_file = files w Config_file \<and>
           (new_config_file_contents ds E w sd = Inl e \<or> open_fault E tmpfile = Some e \<or>
            (\<exists>n. write_fault E tmpfile Config_preamble = Some (n, e)) \<or>
            (\<exists>yaml n. new_config_file_contents ds E w sd = Inr yaml
                \<and> write_fault E tmpfile yaml = Some (n, e)) \<or>
            rename_fault E tmpfile Config_file = Some e)) \<or>
   (\<exists>yaml. new_config_file_contents ds E w sd = Inr yaml \<and>
      open_fault E tmpfile = None \<and> write_fault E tmpfile Config_preamble = None \<and>
      write_fault E tmpfile yaml = None \<and> rename_fault E tmpfile Config_file = None \<and>
      update_config_file ds E sd w =
        w\<lparr>files := (files w)(tmpfile := None, Config_file \<mapsto> Config_preamble @ yaml),
          out := out w @ [ConfigCreated]\<rparr>)"
proof (cases "new_config_file_contents ds E w sd")
  case (Inl e)
  then have "update_config_file ds E sd w = config_error w (files w) e"
    by (simp add: update_config_file_def)
  with Inl show ?thesis by blast
next
  case yaml: (Inr yaml)
  show ?thesis
  proof (cases "open_fault E tmpfile")
    case (Some e)
    with yaml have "update_config_file ds E sd w = config_error w (files w) e"
      by (simp add: update_config_file_def open_w_def)
    with Some show ?thesis by blast
  next
    case op: None
    show ?thesis
    proof (cases "write_fault E tmpfile Config_preamble")
      case (Some a)
      obtain n e where a: "a = (n, e)" by (cases a)
      let ?fs = "(files w)(tmpfile \<mapsto> take n Config_preamble)"
      from yaml op Some a have "update_config_file ds E sd w = config_error w ?fs e"
        by (simp add: update_config_file_def open_w_def file_write_def)
      moreover have "?fs Config_file = files w Config_file"
        using tmpfile_neq by simp
      ultimately show ?thesis using Some a by blast
    next
      case w1: None
      show ?thesis
      proof (cases "write_fault E tmpfile yaml")
        case (Some a)
        obtain n e where a: "a = (n, e)" by (cases a)
        let ?fs = "(files w)(tmpfile \<mapsto> Config_preamble @ take n yaml)"
        from yaml op w1 Some a have "update_config_file ds E sd w = config_error w ?fs e"
          by (simp add: update_config_file_def open_w_def file_write_def)
        moreover have "?fs Config_file = files w Config_file"
          using tmpfile_neq by simp
        ultimately show ?thesis using yaml Some a by blast
      next
        case w2: None
        let ?fs = "(files w)(tmpfile \<mapsto> Config_preamble @ yaml)"
        have fs: "?fs Config_file = files w Config_file"
          using tmpfile_neq by simp
        show ?thesis
        proof (cases "rename_fault E tmpfile Config_file")
          case (Some e)
          with yaml op w1 w2 have "update_config_file ds E sd w = config_error w ?fs e"
            by (simp add: update_config_file_def open_w_def file_write_def os_rename_def)
          with fs Some show ?thesis by blast
        next
          case None
          with yaml op w1 w2 have "update_config_file ds E sd w =
              w\<lparr>files := (files w)(tmpfile := None, Config_file \<mapsto> Config_preamble @ yaml),
                out := out w @ [ConfigCreated]\<rparr>"
            by (simp add: update_config_file_def open_w_def file_write_def os_rename_def)
          with yaml op w1 w2 None show ?thesis by blast
        qed
      qed
    qed
  qed
qed


lemma update_config_file_succeeds:
  assumes "files w Config_file = Some txt" and "yaml_load E txt = Inr conf"
    and "new_config ds conf sd = Inr conf'" and "to_yaml E conf' = Inr yaml"
    and "open_fault E tmpfile = None" and "write_fault E tmpfile Config_preamble = None"
    and "write_fault E tmpfile yaml = None" and "rename_fault E tmpfile Config_file = None"
  shows "update_config_file ds E sd w =
           w\<lparr>files := (files w)(tmpfile := None, Config_file \<mapsto> Config_preamble @ yaml),
             out := out w @ [ConfigCreated]\<rparr>"
proof -
  from assms(1-4) have "new_config_file_contents ds E w sd = Inr yaml"
    by (simp add: new_config_file_contents_def OmegaConf_load_def)
  with update_config_file_cases [of ds E sd w] assms(5-8) show ?thesis
    by auto
qed

lemma update_config_file_missing:
  assumes "files w Config_file = None"
  shows "update_config_file ds E sd w =
           w\<lparr>out := out w @ [ErrorCreatingConfig (FileNotFoundError Config_file)]\<rparr>"
  using assms
  by (simp add: update_config_file_def new_config_file_contents_def OmegaConf_load_def
      config_error_def)

subsection \<open>Atomic write\<close>

text \<open>
  Claim C1. Let \<open>w'\<close> be the world after \<^verbatim>\<open>update_config_file\<close>. If a step before the rename
  fails (the load of the configuration, the construction of the stanzas, the
  serialization, the opening of the temporary file, or one of the two writes to it),
  the content of the configuration file in \<open>w'\<close> is what it was before the call, and the
  error is reported. Opening the temporary file and writing to it never change the
  configuration file. Whenever the configuration file differs after the call, the
  difference is the result of the rename, applied to a file system in which the
  configuration file still had its old content.
\<close>

theorem config_untouched_before_rename:
  assumes "w' = update_config_file ds E sd w"
  shows "(((\<exists>e. OmegaConf_load E (files w) Config_file = Inl e) \<or>
           (\<exists>conf e. OmegaConf_load E (files w) Config_file = Inr conf \<and>
                     new_config ds conf sd = Inl e) \<or>
           (\<exists>conf conf' e. OmegaConf_load E (files w) Config_file = Inr conf \<and>
                     new_config ds conf sd = Inr conf' \<and> to_yaml E conf' = Inl e) \<or>
           open_fault E tmpfile \<noteq> None \<or>
           write_fault E tmpfile Config_preamble \<noteq> None \<or>
           (\<exists>yaml. new_config_file_contents ds E w sd = Inr yaml \<and>
                   write_fault E tmpfile yaml \<noteq> None))
          \<longrightarrow> files w' Config_file = files w Config_file \<and>
              (\<exists>e. out w' = out w @ [ErrorCreatingConfig e])) \<and>
         (\<forall>fs fs'. open_w E tmpfile fs = Inr fs' \<longrightarrow> fs' Config_file = fs Config_file) \<and>
         (\<forall>data fs r fs'. file_write E tmpfile data fs = (r, fs')
             \<longrightarrow> fs' Config_file = fs Config_file) \<and>
         (files w' Config_file \<noteq> files w Config_file \<longrightarrow>
            (\<exists>fs3. fs3 Config_file = files w Config_file \<and>
                   os_rename E tmpfile Config_file fs3 = Inr (files w') \<and>
                   out w' = out w @ [ConfigCreated]))"
proof (intro conjI impI allI)
  assume failing: "(\<exists>e. OmegaConf_load E (files w) Config_file = Inl e) \<or>
           (\<exists>conf e. OmegaConf_load E (files w) Config_file = Inr conf \<and>
                     new_config ds conf sd = Inl e) \<or>
           (\<exists>conf conf' e. OmegaConf_load E (files w) Config_file = Inr conf \<and>
                     new_config ds conf sd = Inr conf' \<and> to_yaml E conf' = Inl e) \<or>
           open_fault E tmpfile \<noteq> None \<or>
           write_fault E tmpfile Config_preamble \<noteq> None \<or>
           (\<exists>yaml. new_config_file_contents ds E w sd = Inr yaml \<and>
                   write_fault E tmpfile yaml \<noteq> None)"
  then have early: "(\<exists>e. new_config_file_contents ds E w sd = Inl e) \<or>
           open_fault E tmpfile \<noteq> None \<or>
           write_fault E tmpfile Config_preamble \<noteq> None \<or>
           (\<exists>yaml. new_config_file_contents ds E w sd = Inr yaml \<and>
                   write_fault E tmpfile yaml \<noteq> None)"
    by (auto simp: new_config_file_contents_def)
  from update_config_file_cases [of ds E sd w] early
  obtain e fs where "w' = config_error w fs e" and "fs Config_file = files w Config_file"
    unfolding assms by auto
  then show "files w' Config_file = files w Config_file"
    and "\<exists>e. out w' = out w @ [ErrorCreatingConfig e]"
    by (simp_all add: config_error_def)
next
  fix fs fs'
  assume "open_w E tmpfile fs = Inr fs'"
  then show "fs' Config_file = fs Config_file" by (rule open_w_frame)
next
  fix data fs r fs'
  assume "file_write E tmpfile data fs = (r, fs')"
  then show "fs' Config_file = fs Config_file" by (rule file_write_frame)
next
  assume changed: "files w' Config_file \<noteq> files w Config_file"
  from update_config_file_cases [of ds E sd w] changed
  obtain yaml where ok: "rename_fault E tmpfile Config_file = None"
    and w': "w' = w\<lparr>files := (files w)(tmpfile := None, Config_file \<mapsto> Config_preamble @ yaml),
                   out := out w @ [ConfigCreated]\<rparr>"
    unfolding assms by (auto simp: config_error_def)
  let ?fs3 = "(files w)(tmpfile \<mapsto> Config_preamble @ yaml)"
  have "?fs3 Config_file = files w Config_file"
    using tmpfile_neq by simp
  moreover have "os_rename E tmpfile Config_file ?fs3 = Inr (files w')"
    using ok w' by (simp add: os_rename_def)
  moreover have "out w' = out w @ [ConfigCreated]"
    using w' by simp
  ultimately show "\<exists>fs3. fs3 Config_file = files w Config_file \<and>
                   os_rename E tmpfile Config_file fs3 = Inr (files w') \<and>
                   out w' = out w @ [ConfigCreated]"
    by blast
qed

theorem config_untouched_before_rename_witness:
  "write_fault disk_full_env tmpfile Config_preamble \<noteq> None \<and>
   files (installed_world []) Config_file = Some ''old'' \<and>
   files (update_config_file Datasets disk_full_env [''stable-diffusion-1.5''] (installed_world []))
     Config_file = Some ''old''"
proof -
  have fault: "write_fault disk_full_env tmpfile Config_preamble \<noteq> None"
    by (simp add: disk_full_env_def)
  have old: "files (installed_world []) Config_file = Some ''old''"
    by (simp add: installed_world_def)
  from config_untouched_before_rename
         [OF refl, where ds = Datasets and E = disk_full_env
            and sd = "[''stable-diffusion-1.5'']" and w = "installed_world []"]
       fault
  have "files (update_config_file Datasets disk_full_env [''stable-diffusion-1.5'']
                 (installed_world [])) Config_file
        = files (installed_world []) Config_file"
    by blast
  with fault old show ?thesis by simp
qed

subsection \<open>Missing configuration file\<close>

text \<open>
  Claim C5, as the code has it. When there is no configuration file, \<^verbatim>\<open>OmegaConf.load\<close>
  raises, \<^verbatim>\<open>update_config_file\<close> reports the error and writes nothing: the world is the
  same but for the message. When the file is there, its text is what synthesis loads
  and merges, and when every step succeeds the file then holds the preamble followed by
  the serialized result.
\<close>

theorem missing_config_not_created:
  "(files w Config_file = None \<longrightarrow>
      update_config_file ds E sd w =
        w\<lparr>out := out w @ [ErrorCreatingConfig (FileNotFoundError Config_file)]\<rparr>) \<and>
   (\<forall>txt. files w Config_file = Some txt \<longrightarrow>
      new_config_file_contents ds E w sd =
        (case yaml_load E txt of
           Inl e \<Rightarrow> Inl e
         | Inr conf \<Rightarrow>
             (case new_config ds conf sd of Inl e \<Rightarrow> Inl e | Inr conf' \<Rightarrow> to_yaml E conf'))) \<and>
   (\<forall>yaml. new_config_file_contents ds E w sd = Inr yaml \<and>
        open_fault E tmpfile = None \<and> write_fault E tmpfile Config_preamble = None \<and>
        write_fault E tmpfile yaml = None \<and> rename_fault E tmpfile Config_file = None \<longrightarrow>
      files (update_config_file ds E sd w) Config_file = Some (Config_preamble @ yaml))"
proof (intro conjI impI allI)
  assume "files w Config_file = None"
  then show "update_config_file ds E sd w =
        w\<lparr>out := out w @ [ErrorCreatingConfig (FileNotFoundError Config_file)]\<rparr>"
    by (rule update_config_file_missing)
next
  fix old
  assume "files w Config_file = Some old"
  then show "new_config_file_contents ds E w sd =
        (case yaml_load E old of
           Inl e \<Rightarrow> Inl e
         | Inr conf \<Rightarrow>
             (case new_config ds conf sd of Inl e \<Rightarrow> Inl e | Inr conf' \<Rightarrow> to_yaml E conf'))"
    by (simp add: new_config_file_contents_def OmegaConf_load_def)
next
  fix yaml
  assume a: "new_config_file_contents ds E w sd = Inr yaml \<and>
        open_fault E tmpfile = None \<and> write_fault E tmpfile Config_preamble = None \<and>
        write_fault E tmpfile yaml = None \<and> rename_fault E tmpfile Config_file = None"
  with update_config_file_cases [of ds E sd w]
  have "update_config_file ds E sd w =
        w\<lparr>files := (files w)(tmpfile := None, Config_file \<mapsto> Config_preamble @ yaml),
          out := out w @ [ConfigCreated]\<rparr>"
    by auto
  then show "files (update_config_file ds E sd w) Config_file = Some (Config_preamble @ yaml)"
    by simp
qed

theorem missing_config_not_created_witness:
  "files (fresh_world []) Config_file = None \<and>
   update_config_file Datasets quiet_env [''stable-diffusion-1.5''] (fresh_world []) =
     (fresh_world [])\<lparr>out := [ErrorCreatingConfig (FileNotFoundError ''./configs/models.yaml'')]\<rparr>"
proof -
  have none: "files (fresh_world []) Config_file = None"
    by (simp add: fresh_world_def)
  from missing_config_not_created
         [where w = "fresh_world []" and ds = Datasets and E = quiet_env
            and sd = "[''stable-diffusion-1.5'']"] none
  show ?thesis by (simp add: fresh_world_def Config_file_def)
qed

text \<open>
  Claim C5 as stated fails: without a configuration file and with the success set
  \<^verbatim>\<open>stable-diffusion-1.5\<close>, no configuration file exists after the call, and the error is
  reported.
\<close>

theorem no_config_file_no_synthesis:
  "files (fresh_world []) Config_file = None \<and>
   files (update_config_file Datasets quiet_env [''stable-diffusion-1.5''] (fresh_world []))
     Config_file = None \<and>
   out (update_config_file Datasets quiet_env [''stable-diffusion-1.5''] (fresh_world []))
     = [ErrorCreatingConfig (FileNotFoundError ''./configs/models.yaml'')]"
  by (simp add: update_config_file_def new_config_file_contents_def OmegaConf_load_def
      config_error_def fresh_world_def Config_file_def)

subsection \<open>Empty success set\<close>

text \<open>
  Claim C10. With an empty success set, a configuration file that loads, and no step
  refused, synthesis returns exactly the loaded mapping (every stanza with all its
  fields, default flags included, nothing added), and \<^verbatim>\<open>update_config_file\<close> rewrites the
  configuration file: it then holds the preamble followed by the serialization of that
  same mapping.
\<close>

theorem empty_success_set_keeps_mapping:
  assumes "files w Config_file = Some txt" and "yaml_load E txt = Inr conf"
    and "to_yaml E conf = Inr yaml"
    and "open_fault E tmpfile = None" and "write_fault E tmpfile Config_preamble = None"
    and "write_fault E tmpfile yaml = None" and "rename_fault E tmpfile Config_file = None"
  shows "new_config ds conf [] = Inr conf \<and>
         update_config_file ds E [] w =
           w\<lparr>files := (files w)(tmpfile := None, Config_file \<mapsto> Config_preamble @ yaml),
             out := out w @ [ConfigCreated]\<rparr>"
proof -
  have same: "new_config ds conf [] = Inr conf"
    by (simp add: new_config_def)
  from update_config_file_succeeds [OF assms(1,2) same assms(3-7)] same
  show ?thesis by simp
qed

theorem empty_success_set_keeps_mapping_witness:
  "files (installed_world []) Config_file = Some ''old'' \<and>
   yaml_load quiet_env ''old'' = Inr example_conf \<and>
   to_yaml quiet_env example_conf = Inr ''stable-diffusion-1.5my-model'' \<and>
   open_fault quiet_env tmpfile = None \<and>
   write_fault quiet_env tmpfile Config_preamble = None \<and>
   write_fault quiet_env tmpfile ''stable-diffusion-1.5my-model'' = None \<and>
   rename_fault quiet_env tmpfile Config_file = None \<and>
   new_config Datasets example_conf [] = Inr example_conf \<and>
   update_config_file Datasets quiet_env [] (installed_world []) =
     (installed_world [])
       \<lparr>files := (files (installed_world []))
                   (tmpfile := None,
                    Config_file \<mapsto> Config_preamble @ ''stable-diffusion-1.5my-model''),
        out := out (installed_world []) @ [ConfigCreated]\<rparr>"
proof -
  have h1: "files (installed_world []) Config_file = Some ''old''"
    by (simp add: installed_world_def)
  have h2: "yaml_load quiet_env ''old'' = Inr example_conf"
    by (simp add: quiet_env_def)
  have h3: "to_yaml quiet_env example_conf = Inr ''stable-diffusion-1.5my-model''"
    by (simp add: quiet_env_def example_conf_def)
  have h4: "open_fault quiet_env tmpfile = None"
    and h5: "write_fault quiet_env tmpfile Config_preamble = None"
    and h6: "write_fault quiet_env tmpfile ''stable-diffusion-1.5my-model'' = None"
    and h7: "rename_fault quiet_env tmpfile Config_file = None"
    by (simp_all add: quiet_env_def)
  from empty_success_set_keeps_mapping [OF h1 h2 h3 h4 h5 h6 h7, where ds = Datasets]
    h1 h2 h3 h4 h5 h6 h7
  show ?thesis by simp
qed

section \<open>Properties of the fetch\<close>

subsection \<open>The operator's answers change nothing but the input\<close>

lemma only_reads_input_trans:
  "only_reads_input w w1 \<Longrightarrow> only_reads_input w1 w2 \<Longrightarrow> only_reads_input w w2"
  by (simp add: only_reads_input_def)

lemma yes_or_no_frame:
  "yes_or_no p b w = (r, w') \<Longrightarrow> only_reads_input w w'"
  by (auto simp: yes_or_no_def only_reads_input_def Let_def split: list.splits if_splits)

lemma ask_each_frame:
  "ask_each ds names c acc w = (r, w') \<Longrightarrow> only_reads_input w w'"
proof (induction names arbitrary: c acc w)
  case Nil
  then show ?case by (simp add: only_reads_input_def)
next
  case (Cons n names)
  show ?case
  proof (cases "map_of ds n")
    case None
    with Cons.prems show ?thesis by (simp add: only_reads_input_def)
  next
    case (Some d)
    obtain r1 w1 where y: "yes_or_no ''    Download?'' (recommended d) w = (r1, w1)"
      by (cases "yes_or_no ''    Download?'' (recommended d) w")
    from yes_or_no_frame [OF y] have f1: "only_reads_input w w1" .
    show ?thesis
    proof (cases r1)
      case (Inl e)
      with Cons.prems Some y f1 show ?thesis by simp
    next
      case (Inr yes)
      with Cons.prems Some y
      have "ask_each ds names (c + 1) (if yes then AList.update n c acc else acc) w1 = (r, w')"
        by simp
      from Cons.IH [OF this] f1 show ?thesis by (blast intro: only_reads_input_trans)
    qed
  qed
qed

lemma select_datasets_frame:
  "select_datasets ds w = (r, w') \<Longrightarrow> only_reads_input w w'"
proof (induction ds w arbitrary: r w' rule: select_datasets.induct)
  case (1 ds w)
  obtain x1 w1 where a: "ask_each ds (map fst ds) 1 [] w = (x1, w1)"
    by (cases "ask_each ds (map fst ds) 1 [] w")
  from ask_each_frame [OF a] have f1: "only_reads_input w w1" .
  show ?case
  proof (cases x1)
    case (Inl e)
    with "1.prems" a f1 show ?thesis by (subst (asm) select_datasets.simps) simp
  next
    case datasets: (Inr datasets)
    obtain x2 w2 where b: "yes_or_no ''Ok to download?'' True w1 = (x2, w2)"
      by (cases "yes_or_no ''Ok to download?'' True w1")
    from yes_or_no_frame [OF b] f1 have f2: "only_reads_input w w2"
      by (blast intro: only_reads_input_trans)
    show ?thesis
    proof (cases x2)
      case (Inl e)
      with "1.prems" a datasets b f2 show ?thesis
        by (subst (asm) select_datasets.simps) simp
    next
      case ok: (Inr ok)
      show ?thesis
      proof (cases ok)
        case True
        with "1.prems" a datasets b ok f2 show ?thesis
          by (subst (asm) select_datasets.simps) simp
      next
        case False
        obtain x3 w3 where c: "yes_or_no ''Change your selection?'' True w2 = (x3, w3)"
          by (cases "yes_or_no ''Change your selection?'' True w2")
        from yes_or_no_frame [OF c] f2 have f3: "only_reads_input w w3"
          by (blast intro: only_reads_input_trans)
        show ?thesis
        proof (cases x3)
          case (Inl e)
          with "1.prems" a datasets b ok False c f3 show ?thesis
            by (subst (asm) select_datasets.simps) simp
        next
          case change: (Inr change)
          show ?thesis
          proof (cases change)
            case True
            with "1.prems" a datasets b ok False c change
            have rec: "select_datasets ds w3 = (r, w')"
              by (subst (asm) select_datasets.simps) simp
            from "1.IH" [OF a [symmetric] datasets b [symmetric] ok _ c [symmetric] change True rec]
              False
            have "only_reads_input w3 w'" by simp
            with f3 show ?thesis by (blast intro: only_reads_input_trans)
          next
            case no_change: False
            with "1.prems" a datasets b ok False c change f3 show ?thesis
              by (subst (asm) select_datasets.simps) simp
          qed
        qed
      qed
    qed
  qed
qed

subsection \<open>One fetch\<close>

lemma attempts_append: "attempts (xs @ ys) = attempts xs @ attempts ys"
  by (induction xs rule: attempts.induct) simp_all

lemma conditional_download_exists:
  "files w (model_dest n) \<noteq> None \<Longrightarrow>
   conditional_download E r n t w = (Inr True, w\<lparr>out := out w @ [Exists n]\<rparr>)"
  by (simp add: conditional_download_def)

lemma conditional_download_installs:
  "conditional_download E r n t w = (Inr True, w') \<Longrightarrow> files w' (model_dest n) \<noteq> None"
  by (auto simp: conditional_download_def os_link_def Let_def
      split: if_splits option.splits sum.splits prod.splits)

lemma conditional_download_attempt:
  "conditional_download E r n t w = (Inr b, w') \<Longrightarrow> attempts (out w') = attempts (out w) @ [n]"
  by (auto simp: conditional_download_def Let_def attempts_append
      split: if_splits option.splits sum.splits prod.splits)

lemma conditional_download_out:
  "conditional_download E r n t w = (res, w') \<Longrightarrow> \<exists>evs. out w' = out w @ evs"
  by (auto simp: conditional_download_def Let_def
      split: if_splits option.splits sum.splits prod.splits)

lemma conditional_download_keeps_files:
  "conditional_download E r n t w = (res, w') \<Longrightarrow> files w p \<noteq> None \<Longrightarrow> files w' p \<noteq> None"
  by (auto simp: conditional_download_def os_link_def Let_def
      split: if_splits option.splits sum.splits prod.splits)

lemma conditional_download_catches:
  "makedirs_fault E (os_path_dirname (model_dest n)) = None \<Longrightarrow>
   \<exists>b w'. conditional_download E r n t w = (Inr b, w')"
  by (auto simp: conditional_download_def Let_def
      split: if_splits option.splits sum.splits prod.splits)

lemma conditional_download_reports:
  "conditional_download E r n t w = (Inr False, w') \<Longrightarrow>
   \<exists>e. ErrorDownloading n e \<in> set (out w')"
  by (auto simp: conditional_download_def Let_def
      split: if_splits option.splits sum.splits prod.splits)

text \<open>
  Claim C3. When a file exists at the destination \<open>model_dest model_name\<close>,
  \<^verbatim>\<open>conditional_download\<close> returns \<^verbatim>\<open>True\<close> and leaves the world as it was but for the
  message \<open>Exists\<close>: no request to the hub, no change to any file; so does a second call
  after it. And after any call that returned \<^verbatim>\<open>True\<close>, whether it found the file or
  downloaded it, the next call for the same file finds it: it returns \<^verbatim>\<open>True\<close> with the
  message \<open>Exists\<close> and changes nothing else.
\<close>

theorem fetch_is_idempotent:
  "(files w (model_dest model_name) \<noteq> None \<longrightarrow>
      conditional_download E repo model_name access_token w =
        (Inr True, w\<lparr>out := out w @ [Exists model_name]\<rparr>) \<and>
      conditional_download E repo model_name access_token (w\<lparr>out := out w @ [Exists model_name]\<rparr>) =
        (Inr True, w\<lparr>out := out w @ [Exists model_name, Exists model_name]\<rparr>)) \<and>
   (\<forall>w1. conditional_download E repo model_name access_token w = (Inr True, w1) \<longrightarrow>
      conditional_download E repo model_name access_token w1 =
        (Inr True, w1\<lparr>out := out w1 @ [Exists model_name]\<rparr>))"
proof (intro conjI impI allI)
  assume "files w (model_dest model_name) \<noteq> None"
  then show "conditional_download E repo model_name access_token w =
        (Inr True, w\<lparr>out := out w @ [Exists model_name]\<rparr>)"
    and "conditional_download E repo model_name access_token (w\<lparr>out := out w @ [Exists model_name]\<rparr>) =
        (Inr True, w\<lparr>out := out w @ [Exists model_name, Exists model_name]\<rparr>)"
    by (simp_all add: conditional_download_exists)
next
  fix w1
  assume "conditional_download E repo model_name access_token w = (Inr True, w1)"
  then have "files w1 (model_dest model_name) \<noteq> None"
    by (rule conditional_download_installs)
  then show "conditional_download E repo model_name access_token w1 =
        (Inr True, w1\<lparr>out := out w1 @ [Exists model_name]\<rparr>)"
    by (rule conditional_download_exists)
qed

lemma first_fetch_downloads:
  "fst (conditional_download quiet_env ''CompVis/stable-diffusion-v-1-4-original''
          ''sd-v1-4.ckpt'' ''hf_secret'' (fresh_world [])) = Inr True \<and>
   hub_calls (snd (conditional_download quiet_env ''CompVis/stable-diffusion-v-1-4-original''
          ''sd-v1-4.ckpt'' ''hf_secret'' (fresh_world [])))
     = [(''CompVis/stable-diffusion-v-1-4-original'', ''sd-v1-4.ckpt'', ''hf_secret'')]"
  by code_simp

theorem fetch_is_idempotent_witness:
  "fst (conditional_download quiet_env ''CompVis/stable-diffusion-v-1-4-original''
          ''sd-v1-4.ckpt'' ''hf_secret'' (fresh_world [])) = Inr True \<and>
   hub_calls (snd (conditional_download quiet_env ''CompVis/stable-diffusion-v-1-4-original''
          ''sd-v1-4.ckpt'' ''hf_secret'' (fresh_world [])))
     = [(''CompVis/stable-diffusion-v-1-4-original'', ''sd-v1-4.ckpt'', ''hf_secret'')] \<and>
   conditional_download quiet_env ''CompVis/stable-diffusion-v-1-4-original''
     ''sd-v1-4.ckpt'' ''hf_secret''
     (snd (conditional_download quiet_env ''CompVis/stable-diffusion-v-1-4-original''
          ''sd-v1-4.ckpt'' ''hf_secret'' (fresh_world [])))
   = (Inr True,
      (snd (conditional_download quiet_env ''CompVis/stable-diffusion-v-1-4-original''
          ''sd-v1-4.ckpt'' ''hf_secret'' (fresh_world [])))
        \<lparr>out := out (snd (conditional_download quiet_env
                   ''CompVis/stable-diffusion-v-1-4-original''
                   ''sd-v1-4.ckpt'' ''hf_secret'' (fresh_world []))) @ [Exists ''sd-v1-4.ckpt'']\<rparr>)"
proof -
  define w1 where "w1 = snd (conditional_download quiet_env
     ''CompVis/stable-diffusion-v-1-4-original'' ''sd-v1-4.ckpt'' ''hf_secret'' (fresh_world []))"
  have first: "conditional_download quiet_env ''CompVis/stable-diffusion-v-1-4-original''
          ''sd-v1-4.ckpt'' ''hf_secret'' (fresh_world []) = (Inr True, w1)"
    unfolding w1_def using first_fetch_downloads by (simp add: prod_eq_iff)
  from fetch_is_idempotent [where w = "fresh_world []" and E = quiet_env
      and repo = "''CompVis/stable-diffusion-v-1-4-original''"
      and model_name = "''sd-v1-4.ckpt''" and access_token = "''hf_secret''"] first
  have "conditional_download quiet_env ''CompVis/stable-diffusion-v-1-4-original''
          ''sd-v1-4.ckpt'' ''hf_secret'' w1 = (Inr True, w1\<lparr>out := out w1 @ [Exists ''sd-v1-4.ckpt'']\<rparr>)"
    by blast
  with first_fetch_downloads show ?thesis
    unfolding w1_def by simp
qed

subsection \<open>The loop over the plan\<close>

lemma download_loop_append:
  "download_loop ds E t (xs @ ys) acc w =
     (case download_loop ds E t xs acc w of
        (Inl e, w') \<Rightarrow> (Inl e, w')
      | (Inr s, w') \<Rightarrow> download_loop ds E t ys s w')"
  by (induction xs arbitrary: acc w) (auto split: option.splits sum.splits prod.splits)

lemma download_loop_returns:
  assumes "list_all (\<lambda>m. map_of ds m \<noteq> None) plan" and "\<forall>p. makedirs_fault E p = None"
  shows "\<exists>s w'. download_loop ds E t plan acc w = (Inr s, w')"
  using assms(1)
proof (induction plan arbitrary: acc w)
  case Nil
  then show ?case by simp
next
  case (Cons m plan)
  then obtain d where d: "map_of ds m = Some d" by auto
  from assms(2) have "makedirs_fault E (os_path_dirname (model_dest (filename d))) = None"
    by simp
  from conditional_download_catches [OF this] obtain b w1 where
    "conditional_download E (repo_id d) (filename d) t w = (Inr b, w1)"
    by blast
  with d Cons show ?case by simp
qed

lemma download_loop_out:
  "download_loop ds E t plan acc w = (res, w') \<Longrightarrow> \<exists>evs. out w' = out w @ evs"
proof (induction plan arbitrary: acc w)
  case Nil
  then show ?case by simp
next
  case (Cons m plan)
  show ?case
  proof (cases "map_of ds m")
    case None
    with Cons.prems show ?thesis by simp
  next
    case (Some d)
    obtain r1 w1 where cd: "conditional_download E (repo_id d) (filename d) t w = (r1, w1)"
      by (cases "conditional_download E (repo_id d) (filename d) t w")
    from conditional_download_out [OF cd] obtain evs1 where e1: "out w1 = out w @ evs1" ..
    show ?thesis
    proof (cases r1)
      case (Inl e)
      with Cons.prems Some cd e1 show ?thesis by auto
    next
      case (Inr b)
      with Cons.prems Some cd
      have "download_loop ds E t plan (if b then AList.update m True acc else acc) w1 = (res, w')"
        by simp
      from Cons.IH [OF this] e1 show ?thesis by auto
    qed
  qed
qed

lemma download_loop_keeps_files:
  "download_loop ds E t plan acc w = (res, w') \<Longrightarrow> files w p \<noteq> None \<Longrightarrow> files w' p \<noteq> None"
proof (induction plan arbitrary: acc w)
  case Nil
  then show ?case by simp
next
  case (Cons m plan)
  show ?case
  proof (cases "map_of ds m")
    case None
    with Cons.prems show ?thesis by simp
  next
    case (Some d)
    obtain r1 w1 where cd: "conditional_download E (repo_id d) (filename d) t w = (r1, w1)"
      by (cases "conditional_download E (repo_id d) (filename d) t w")
    from conditional_download_keeps_files [OF cd Cons.prems(2)]
    have f1: "files w1 p \<noteq> None" .
    show ?thesis
    proof (cases r1)
      case (Inl e)
      with Cons.prems Some cd f1 show ?thesis by auto
    next
      case (Inr b)
      with Cons.prems Some cd
      have "download_loop ds E t plan (if b then AList.update m True acc else acc) w1 = (res, w')"
        by simp
      from Cons.IH [OF this f1] show ?thesis .
    qed
  qed
qed

lemma download_loop_attempts:
  "download_loop ds E t plan acc w = (Inr s, w') \<Longrightarrow>
   attempts (out w') = attempts (out w) @ plan_files ds plan"
proof (induction plan arbitrary: acc w)
  case Nil
  then show ?case by simp
next
  case (Cons m plan)
  from Cons.prems obtain d where d: "map_of ds m = Some d"
    by (auto split: option.splits)
  from Cons.prems d obtain b w1 where
    cd: "conditional_download E (repo_id d) (filename d) t w = (Inr b, w1)" and
    rest: "download_loop ds E t plan (if b then AList.update m True acc else acc) w1 = (Inr s, w')"
    by (auto split: sum.splits prod.splits)
  from Cons.IH [OF rest] conditional_download_attempt [OF cd] d
  show ?case by simp
qed

lemma download_loop_keys:
  assumes "download_loop ds E t plan acc w = (Inr s, w')"
    and "distinct plan" and "set (map fst acc) \<inter> set plan = {}"
  shows "map fst s = map fst acc @ filter (\<lambda>m. m \<in> fst ` set s) plan"
  using assms
proof (induction plan arbitrary: acc w)
  case Nil
  then show ?case by simp
next
  case (Cons m plan)
  from Cons.prems obtain d where d: "map_of ds m = Some d"
    by (auto split: option.splits)
  from Cons.prems d obtain b w1 where
    cd: "conditional_download E (repo_id d) (filename d) t w = (Inr b, w1)" and
    rest: "download_loop ds E t plan (if b then AList.update m True acc else acc) w1 = (Inr s, w')"
    by (auto split: sum.splits prod.splits)
  let ?acc = "if b then AList.update m True acc else acc"
  from Cons.prems have fresh: "m \<notin> set (map fst acc)" and notin: "m \<notin> set plan"
    and dist: "distinct plan" and disj: "set (map fst acc) \<inter> set plan = {}"
    by auto
  have keys: "map fst ?acc = (if b then map fst acc @ [m] else map fst acc)"
    using fresh by (simp add: update_keys)
  have "set (map fst ?acc) \<inter> set plan = {}"
    using keys disj notin by auto
  from Cons.IH [OF rest dist this]
  have IH: "map fst s = map fst ?acc @ filter (\<lambda>m. m \<in> fst ` set s) plan" .
  show ?case
  proof (cases b)
    case True
    with IH keys have eq: "map fst s = map fst acc @ m # filter (\<lambda>m. m \<in> fst ` set s) plan"
      by simp
    then have "m \<in> set (map fst s)" by simp
    then have "m \<in> fst ` set s" by simp
    with eq show ?thesis by simp
  next
    case False
    with IH keys have eq: "map fst s = map fst acc @ filter (\<lambda>m. m \<in> fst ` set s) plan"
      by simp
    have "m \<notin> set (map fst s)"
      using fresh notin by (subst eq) auto
    then have "m \<notin> fst ` set s" by simp
    with eq show ?thesis by simp
  qed
qed

lemma download_loop_item:
  assumes run: "download_loop ds E t (pre @ m # post) [] w = (Inr s, w')"
    and dist: "distinct (pre @ m # post)" and d: "map_of ds m = Some d"
  shows "\<exists>s1 w1 b w2. download_loop ds E t pre [] w = (Inr s1, w1) \<and>
           conditional_download E (repo_id d) (filename d) t w1 = (Inr b, w2) \<and>
           (m \<in> fst ` set s \<longleftrightarrow> b) \<and>
           (\<not> b \<longrightarrow> (\<exists>e. ErrorDownloading (filename d) e \<in> set (out w')))"
proof -
  from run obtain s1 w1 where
    pre: "download_loop ds E t pre [] w = (Inr s1, w1)" and
    tail: "download_loop ds E t (m # post) s1 w1 = (Inr s, w')"
    by (auto simp: download_loop_append split: sum.splits prod.splits)
  from tail d obtain b w2 where
    cd: "conditional_download E (repo_id d) (filename d) t w1 = (Inr b, w2)" and
    rest: "download_loop ds E t post (if b then AList.update m True s1 else s1) w2 = (Inr s, w')"
    by (auto split: sum.splits prod.splits)
  let ?acc = "if b then AList.update m True s1 else s1"
  from dist have dpre: "distinct pre" and dpost: "distinct post"
    and m_pre: "m \<notin> set pre" and m_post: "m \<notin> set post"
    and pp: "set pre \<inter> set post = {}"
    by auto
  from download_loop_keys [OF pre dpre]
  have e1: "map fst s1 = filter (\<lambda>m. m \<in> fst ` set s1) pre"
    by simp
  from arg_cong [OF e1, of set] have k1: "set (map fst s1) \<subseteq> set pre"
    by auto
  with m_pre have m_s1: "m \<notin> set (map fst s1)" by auto
  have keys: "map fst ?acc = (if b then map fst s1 @ [m] else map fst s1)"
    using m_s1 by (simp add: update_keys)
  have "set (map fst ?acc) \<inter> set post = {}"
    using keys k1 pp m_post by auto
  from download_loop_keys [OF rest dpost this]
  have eq: "map fst s = map fst ?acc @ filter (\<lambda>m. m \<in> fst ` set s) post" .
  have "m \<in> set (map fst s) \<longleftrightarrow> b"
    using m_s1 m_post keys by (subst eq) auto
  then have member: "m \<in> fst ` set s \<longleftrightarrow> b" by simp
  have reported: "\<exists>e. ErrorDownloading (filename d) e \<in> set (out w')" if "\<not> b"
  proof -
    from cd that
    have "conditional_download E (repo_id d) (filename d) t w1 = (Inr False, w2)"
      by simp
    from conditional_download_reports [OF this] obtain e where
      "ErrorDownloading (filename d) e \<in> set (out w2)" ..
    moreover from download_loop_out [OF rest] obtain evs where "out w' = out w2 @ evs" ..
    ultimately show ?thesis by auto
  qed
  from pre cd member reported show ?thesis by blast
qed

lemma three_models_known: "list_all (\<lambda>m. map_of Datasets m \<noteq> None) (map fst three_models)"
  by code_simp

lemma three_models_distinct: "distinct (map fst three_models)"
  by code_simp

lemma no_legacy_file:
  "migrate_models_ckpt Datasets quiet_env (installed_world []) = (Inr (), installed_world [])"
  by (simp add: migrate_models_ckpt_def installed_world_def fresh_world_def Config_file_def
      Model_dir_def os_path_join_def)

lemma quiet_dirs: "\<forall>p. makedirs_fault quiet_env p = None"
  by (simp add: quiet_env_def)

lemma three_models_run:
  "fst (download_weight_datasets Datasets quiet_env (Some three_models) ''hf_secret''
          (installed_world []))
     = Inr [(''stable-diffusion-1.5'', True), (''stable-diffusion-1.4'', True)]"
  by code_simp

text \<open>
  Claim C4. Let the migration return, let every name of the plan be in the catalog
  (and no name twice, the plan being a dictionary), and let no directory creation be
  refused. Then, whatever the hub client and the linking do, \<^verbatim>\<open>download_weight_datasets\<close>
  returns a success set: no failure of a fetch aborts the run. A fetch is started for
  every plan item, in plan order. The success set lists, in plan order, exactly the
  plan items whose fetch returned \<^verbatim>\<open>True\<close>: for every item \<open>m\<close> of the plan, with \<open>pre\<close>
  the items before it, the loop over \<open>pre\<close> returns, the fetch of \<open>m\<close> in the world it
  leaves returns some \<open>b\<close>, \<open>m\<close> is in the success set exactly if \<open>b\<close> is true, and if \<open>b\<close> is
  false the failure has been reported by an \<open>ErrorDownloading\<close> message for the file of \<open>m\<close>.
\<close>

theorem fetch_failures_are_isolated:
  assumes mig: "migrate_models_ckpt ds E w = (Inr (), w0)"
    and known: "list_all (\<lambda>m. map_of ds m \<noteq> None) (map fst models)"
    and dist: "distinct (map fst models)"
    and dirs: "\<forall>p. makedirs_fault E p = None"
  shows "\<exists>successful w'.
           download_weight_datasets ds E (Some models) t w = (Inr successful, w') \<and>
           attempts (out w') = attempts (out w0) @ plan_files ds (map fst models) \<and>
           map fst successful = filter (\<lambda>m. m \<in> fst ` set successful) (map fst models) \<and>
           (\<forall>pre m post d. map fst models = pre @ m # post \<and> map_of ds m = Some d \<longrightarrow>
              (\<exists>s1 w1 b w2.
                  download_loop ds E t pre [] w0 = (Inr s1, w1) \<and>
                  conditional_download E (repo_id d) (filename d) t w1 = (Inr b, w2) \<and>
                  (m \<in> fst ` set successful \<longleftrightarrow> b) \<and>
                  (\<not> b \<longrightarrow> (\<exists>e. ErrorDownloading (filename d) e \<in> set (out w')))))"
proof -
  from download_loop_returns [OF known dirs] obtain s w2 where
    loop: "download_loop ds E t (map fst models) [] w0 = (Inr s, w2)"
    by blast
  let ?w' = "w2\<lparr>out := out w2 @ [SuccessfullyInstalled (map fst s)]\<rparr>"
  from mig loop have run: "download_weight_datasets ds E (Some models) t w = (Inr s, ?w')"
    by (simp add: download_weight_datasets_def)
  from download_loop_attempts [OF loop]
  have att: "attempts (out ?w') = attempts (out w0) @ plan_files ds (map fst models)"
    by (simp add: attempts_append)
  from download_loop_keys [OF loop dist]
  have keys: "map fst s = filter (\<lambda>m. m \<in> fst ` set s) (map fst models)"
    by simp
  have items: "\<forall>pre m post d. map fst models = pre @ m # post \<and> map_of ds m = Some d \<longrightarrow>
              (\<exists>s1 w1 b w2.
                  download_loop ds E t pre [] w0 = (Inr s1, w1) \<and>
                  conditional_download E (repo_id d) (filename d) t w1 = (Inr b, w2) \<and>
                  (m \<in> fst ` set s \<longleftrightarrow> b) \<and>
                  (\<not> b \<longrightarrow> (\<exists>e. ErrorDownloading (filename d) e \<in> set (out ?w'))))"
  proof (intro allI impI)
    fix pre m post d
    assume a: "map fst models = pre @ m # post \<and> map_of ds m = Some d"
    with loop dist have "download_loop ds E t (pre @ m # post) [] w0 = (Inr s, w2)"
      and "distinct (pre @ m # post)" and "map_of ds m = Some d"
      by simp_all
    from download_loop_item [OF this] obtain s1 w1 b w3 where
      "download_loop ds E t pre [] w0 = (Inr s1, w1)"
      "conditional_download E (repo_id d) (filename d) t w1 = (Inr b, w3)"
      "m \<in> fst ` set s \<longleftrightarrow> b"
      "\<not> b \<longrightarrow> (\<exists>e. ErrorDownloading (filename d) e \<in> set (out w2))"
      by blast
    then show "\<exists>s1 w1 b w2.
                  download_loop ds E t pre [] w0 = (Inr s1, w1) \<and>
                  conditional_download E (repo_id d) (filename d) t w1 = (Inr b, w2) \<and>
                  (m \<in> fst ` set s \<longleftrightarrow> b) \<and>
                  (\<not> b \<longrightarrow> (\<exists>e. ErrorDownloading (filename d) e \<in> set (out ?w')))"
      by (intro exI [of _ s1] exI [of _ w1] exI [of _ b] exI [of _ w3]) auto
  qed
  from run att keys items show ?thesis
    by (intro exI [of _ s] exI [of _ ?w'] conjI)
qed

theorem fetch_failures_are_isolated_witness:
  "migrate_models_ckpt Datasets quiet_env (installed_world []) = (Inr (), installed_world []) \<and>
   list_all (\<lambda>m. map_of Datasets m \<noteq> None) (map fst three_models) \<and>
   distinct (map fst three_models) \<and>
   (\<forall>p. makedirs_fault quiet_env p = None) \<and>
   (\<exists>w'. download_weight_datasets Datasets quiet_env (Some three_models) ''hf_secret''
            (installed_world [])
          = (Inr [(''stable-diffusion-1.5'', True), (''stable-diffusion-1.4'', True)], w') \<and>
         attempts (out w') =
           [''v1-5-pruned-emaonly.ckpt'', ''sd-v1-5-inpainting.ckpt'', ''sd-v1-4.ckpt''])"
proof -
  from fetch_failures_are_isolated
    [OF no_legacy_file three_models_known three_models_distinct quiet_dirs,
     where t = "''hf_secret''"]
  obtain successful w' where
    run: "download_weight_datasets Datasets quiet_env (Some three_models) ''hf_secret''
            (installed_world []) = (Inr successful, w')" and
    att: "attempts (out w') =
            attempts (out (installed_world [])) @ plan_files Datasets (map fst three_models)"
    by blast
  from run three_models_run
  have s: "successful = [(''stable-diffusion-1.5'', True), (''stable-diffusion-1.4'', True)]"
    by simp
  have "attempts (out (installed_world [])) @ plan_files Datasets (map fst three_models)
          = [''v1-5-pruned-emaonly.ckpt'', ''sd-v1-5-inpainting.ckpt'', ''sd-v1-4.ckpt'']"
    by code_simp
  with att have "attempts (out w') =
           [''v1-5-pruned-emaonly.ckpt'', ''sd-v1-5-inpainting.ckpt'', ''sd-v1-4.ckpt'']"
    by simp
  with run s no_legacy_file three_models_known three_models_distinct quiet_dirs
  show ?thesis by blast
qed

subsection \<open>Legacy migration\<close>

lemma migrate_absent:
  "files w legacy_ckpt = None \<Longrightarrow> migrate_models_ckpt ds E w = (Inr (), w)"
  by (simp add: migrate_models_ckpt_def legacy_ckpt_def)

lemma migrate_declined:
  assumes "map_of ds ''stable-diffusion-1.4'' = Some d"
    and "files w legacy_ckpt \<noteq> None"
    and "yes_or_no (rename_prompt (filename d)) True (w\<lparr>out := out w @ [LegacyFound]\<rparr>) = (Inr False, w2)"
  shows "migrate_models_ckpt ds E w = (Inr (), w2)"
  using assms by (auto simp: migrate_models_ckpt_def legacy_ckpt_def Let_def)

lemma migrate_consented:
  assumes "map_of ds ''stable-diffusion-1.4'' = Some d"
    and "files w legacy_ckpt = Some c"
    and "yes_or_no (rename_prompt (filename d)) True (w\<lparr>out := out w @ [LegacyFound]\<rparr>) = (Inr True, w2)"
    and "rename_fault E legacy_ckpt (model_dest (filename d)) = None"
  shows "migrate_models_ckpt ds E w =
           (Inr (), w2\<lparr>out := out w2 @ [LegacyRenamed (filename d)],
                      files := (files w)(legacy_ckpt := None, model_dest (filename d) \<mapsto> c)\<rparr>)"
proof -
  from yes_or_no_frame [OF assms(3)] have "files w2 = files w"
    by (simp add: only_reads_input_def)
  with assms show ?thesis
    by (simp add: migrate_models_ckpt_def legacy_ckpt_def Let_def
        os_rename_def model_dest_def)
qed

lemma fetch_after_prefix:
  assumes "files w1 (model_dest n) \<noteq> None"
    and "list_all (\<lambda>m. map_of ds m \<noteq> None) pre" and "\<forall>p. makedirs_fault E p = None"
  shows "\<exists>s1 w3. download_loop ds E t pre [] w1 = (Inr s1, w3) \<and>
           conditional_download E r n t w3 = (Inr True, w3\<lparr>out := out w3 @ [Exists n]\<rparr>)"
proof -
  from download_loop_returns [OF assms(2,3)] obtain s1 w3 where
    loop: "download_loop ds E t pre [] w1 = (Inr s1, w3)"
    by blast
  from download_loop_keeps_files [OF loop assms(1)]
  have "files w3 (model_dest n) \<noteq> None" .
  from conditional_download_exists [OF this] loop show ?thesis by blast
qed

lemma sd14_entry:
  "map_of Datasets ''stable-diffusion-1.4'' =
     Some \<lparr>description = ''The original Stable Diffusion version 1.4 weight file (4.27 GB)'',
           repo_id = ''CompVis/stable-diffusion-v-1-4-original'',
           config = ''v1-inference.yaml'',
           filename = ''sd-v1-4.ckpt'',
           recommended = False, width = 512, height = 512\<rparr>"
  by (simp add: Datasets_def)

lemma legacy_present: "files (legacy_world ['''']) legacy_ckpt = Some ''weights of 1.4''"
  by (simp add: legacy_world_def)

lemma legacy_consent:
  "yes_or_no (rename_prompt ''sd-v1-4.ckpt'') True ((legacy_world [''''])\<lparr>out := out (legacy_world ['''']) @ [LegacyFound]\<rparr>)
   = (Inr True, (legacy_world [])\<lparr>out := [LegacyFound]\<rparr>)"
  by (simp add: yes_or_no_def legacy_world_def fresh_world_def)

text \<open>
  Claim C8. Let the catalog have the entry \<^verbatim>\<open>stable-diffusion-1.4\<close> with descriptor \<open>d\<close>.
  If a file exists at the deprecated path, the operator consents and the rename is not
  refused, then \<^verbatim>\<open>migrate_models_ckpt\<close> moves the file to the destination of \<open>d\<close>'s file
  name, without any request to the hub and before any fetch is started;
  \<^verbatim>\<open>download_weight_datasets\<close> runs its loop in the world the migration leaves; and when
  the plan holds \<^verbatim>\<open>stable-diffusion-1.4\<close>, the loop over the items before it returns and
  the fetch for \<open>d\<close> then finds the file: it returns \<^verbatim>\<open>True\<close> with the message \<open>Exists\<close>,
  no request to the hub and no change to any file. If the deprecated file is absent,
  the migration changes nothing at all; if the operator does not consent, it changes
  no file and sends no request.
\<close>

theorem legacy_migration_precedes_fetch:
  assumes d: "map_of ds ''stable-diffusion-1.4'' = Some d"
  shows "(\<forall>c w2. files w legacy_ckpt = Some c \<and>
             yes_or_no (rename_prompt (filename d)) True (w\<lparr>out := out w @ [LegacyFound]\<rparr>) = (Inr True, w2) \<and>
             rename_fault E legacy_ckpt (model_dest (filename d)) = None \<and>
             list_all (\<lambda>m. map_of ds m \<noteq> None) (map fst models) \<and>
             (\<forall>p. makedirs_fault E p = None) \<longrightarrow>
           (\<exists>w1. migrate_models_ckpt ds E w = (Inr (), w1) \<and>
                 files w1 = (files w)(legacy_ckpt := None, model_dest (filename d) \<mapsto> c) \<and>
                 hub_calls w1 = hub_calls w \<and> attempts (out w1) = attempts (out w) \<and>
                 download_weight_datasets ds E (Some models) t w =
                   (case download_loop ds E t (map fst models) [] w1 of
                      (Inl e, w3) \<Rightarrow> (Inl e, w3)
                    | (Inr successful, w3) \<Rightarrow>
                        (Inr successful,
                         w3\<lparr>out := out w3 @ [SuccessfullyInstalled (map fst successful)]\<rparr>)) \<and>
                 (\<forall>pre post. map fst models = pre @ ''stable-diffusion-1.4'' # post \<longrightarrow>
                    (\<exists>s1 w3. download_loop ds E t pre [] w1 = (Inr s1, w3) \<and>
                       conditional_download E (repo_id d) (filename d) t w3 =
                         (Inr True, w3\<lparr>out := out w3 @ [Exists (filename d)]\<rparr>))))) \<and>
         (files w legacy_ckpt = None \<longrightarrow> migrate_models_ckpt ds E w = (Inr (), w)) \<and>
         (\<forall>w2. yes_or_no (rename_prompt (filename d)) True (w\<lparr>out := out w @ [LegacyFound]\<rparr>) = (Inr False, w2)
             \<longrightarrow> (\<exists>w1. migrate_models_ckpt ds E w = (Inr (), w1) \<and> files w1 = files w \<and>
                       hub_calls w1 = hub_calls w \<and> attempts (out w1) = attempts (out w)))"
proof (intro conjI allI impI)
  fix c w2
  assume a: "files w legacy_ckpt = Some c \<and>
             yes_or_no (rename_prompt (filename d)) True (w\<lparr>out := out w @ [LegacyFound]\<rparr>) = (Inr True, w2) \<and>
             rename_fault E legacy_ckpt (model_dest (filename d)) = None \<and>
             list_all (\<lambda>m. map_of ds m \<noteq> None) (map fst models) \<and>
             (\<forall>p. makedirs_fault E p = None)"
  let ?w1 = "w2\<lparr>out := out w2 @ [LegacyRenamed (filename d)],
                files := (files w)(legacy_ckpt := None, model_dest (filename d) \<mapsto> c)\<rparr>"
  from a have yes: "yes_or_no (rename_prompt (filename d)) True (w\<lparr>out := out w @ [LegacyFound]\<rparr>) = (Inr True, w2)"
    and known: "list_all (\<lambda>m. map_of ds m \<noteq> None) (map fst models)"
    and dirs: "\<forall>p. makedirs_fault E p = None"
    by simp_all
  from a migrate_consented [OF d _ yes]
  have mig: "migrate_models_ckpt ds E w = (Inr (), ?w1)" by simp
  from yes_or_no_frame [OF yes]
  have frame: "hub_calls w2 = hub_calls w" "out w2 = out w @ [LegacyFound]"
    by (simp_all add: only_reads_input_def)
  have there: "files ?w1 (model_dest (filename d)) \<noteq> None" by simp
  have run: "download_weight_datasets ds E (Some models) t w =
                   (case download_loop ds E t (map fst models) [] ?w1 of
                      (Inl e, w3) \<Rightarrow> (Inl e, w3)
                    | (Inr successful, w3) \<Rightarrow>
                        (Inr successful,
                         w3\<lparr>out := out w3 @ [SuccessfullyInstalled (map fst successful)]\<rparr>))"
    using mig by (simp add: download_weight_datasets_def)
  have each: "\<forall>pre post. map fst models = pre @ ''stable-diffusion-1.4'' # post \<longrightarrow>
                    (\<exists>s1 w3. download_loop ds E t pre [] ?w1 = (Inr s1, w3) \<and>
                       conditional_download E (repo_id d) (filename d) t w3 =
                         (Inr True, w3\<lparr>out := out w3 @ [Exists (filename d)]\<rparr>))"
  proof (intro allI impI)
    fix pre post
    assume "map fst models = pre @ ''stable-diffusion-1.4'' # post"
    with known have "list_all (\<lambda>m. map_of ds m \<noteq> None) pre" by simp
    from fetch_after_prefix [OF there this dirs]
    show "\<exists>s1 w3. download_loop ds E t pre [] ?w1 = (Inr s1, w3) \<and>
                       conditional_download E (repo_id d) (filename d) t w3 =
                         (Inr True, w3\<lparr>out := out w3 @ [Exists (filename d)]\<rparr>)" .
  qed
  from mig frame run each
  show "\<exists>w1. migrate_models_ckpt ds E w = (Inr (), w1) \<and>
                 files w1 = (files w)(legacy_ckpt := None, model_dest (filename d) \<mapsto> c) \<and>
                 hub_calls w1 = hub_calls w \<and> attempts (out w1) = attempts (out w) \<and>
                 download_weight_datasets ds E (Some models) t w =
                   (case download_loop ds E t (map fst models) [] w1 of
                      (Inl e, w3) \<Rightarrow> (Inl e, w3)
                    | (Inr successful, w3) \<Rightarrow>
                        (Inr successful,
                         w3\<lparr>out := out w3 @ [SuccessfullyInstalled (map fst successful)]\<rparr>)) \<and>
                 (\<forall>pre post. map fst models = pre @ ''stable-diffusion-1.4'' # post \<longrightarrow>
                    (\<exists>s1 w3. download_loop ds E t pre [] w1 = (Inr s1, w3) \<and>
                       conditional_download E (repo_id d) (filename d) t w3 =
                         (Inr True, w3\<lparr>out := out w3 @ [Exists (filename d)]\<rparr>)))"
    by (intro exI [of _ ?w1] conjI) (simp_all add: attempts_append)
next
  assume "files w legacy_ckpt = None"
  then show "migrate_models_ckpt ds E w = (Inr (), w)" by (rule migrate_absent)
next
  fix w2
  assume no: "yes_or_no (rename_prompt (filename d)) True (w\<lparr>out := out w @ [LegacyFound]\<rparr>) = (Inr False, w2)"
  from yes_or_no_frame [OF no]
  have frame: "files w2 = files w" "hub_calls w2 = hub_calls w" "out w2 = out w @ [LegacyFound]"
    by (simp_all add: only_reads_input_def)
  show "\<exists>w1. migrate_models_ckpt ds E w = (Inr (), w1) \<and> files w1 = files w \<and>
                       hub_calls w1 = hub_calls w \<and> attempts (out w1) = attempts (out w)"
  proof (cases "files w legacy_ckpt")
    case None
    from migrate_absent [OF this] show ?thesis by simp
  next
    case (Some c)
    then have "files w legacy_ckpt \<noteq> None" by simp
    from migrate_declined [OF d this no] frame show ?thesis
      by (simp add: attempts_append)
  qed
qed

theorem legacy_migration_precedes_fetch_witness:
  "map_of Datasets ''stable-diffusion-1.4'' =
     Some \<lparr>description = ''The original Stable Diffusion version 1.4 weight file (4.27 GB)'',
           repo_id = ''CompVis/stable-diffusion-v-1-4-original'',
           config = ''v1-inference.yaml'',
           filename = ''sd-v1-4.ckpt'',
           recommended = False, width = 512, height = 512\<rparr> \<and>
   files (legacy_world ['''']) legacy_ckpt = Some ''weights of 1.4'' \<and>
   yes_or_no (rename_prompt ''sd-v1-4.ckpt'') True ((legacy_world [''''])\<lparr>out := out (legacy_world ['''']) @ [LegacyFound]\<rparr>)
     = (Inr True, (legacy_world [])\<lparr>out := [LegacyFound]\<rparr>) \<and>
   rename_fault quiet_env legacy_ckpt (model_dest ''sd-v1-4.ckpt'') = None \<and>
   list_all (\<lambda>m. map_of Datasets m \<noteq> None) (map fst three_models) \<and>
   (\<forall>p. makedirs_fault quiet_env p = None) \<and>
   map fst three_models = [''stable-diffusion-1.5'', ''inpainting-1.5''] @ ''stable-diffusion-1.4'' # [] \<and>
   (\<exists>w1. migrate_models_ckpt Datasets quiet_env (legacy_world ['''']) = (Inr (), w1) \<and>
      files w1 = (files (legacy_world ['''']))
                   (legacy_ckpt := None, model_dest ''sd-v1-4.ckpt'' \<mapsto> ''weights of 1.4'') \<and>
      hub_calls w1 = [] \<and>
      (\<exists>s1 w3. download_loop Datasets quiet_env ''hf_secret''
                  [''stable-diffusion-1.5'', ''inpainting-1.5''] [] w1 = (Inr s1, w3) \<and>
         conditional_download quiet_env ''CompVis/stable-diffusion-v-1-4-original''
             ''sd-v1-4.ckpt'' ''hf_secret'' w3
           = (Inr True, w3\<lparr>out := out w3 @ [Exists ''sd-v1-4.ckpt'']\<rparr>)))"
proof -
  have rf: "rename_fault quiet_env legacy_ckpt (model_dest ''sd-v1-4.ckpt'') = None"
    by (simp add: quiet_env_def)
  have split: "map fst three_models
      = [''stable-diffusion-1.5'', ''inpainting-1.5''] @ ''stable-diffusion-1.4'' # []"
    by (simp add: three_models_def)
  have calls: "hub_calls (legacy_world ['''']) = []"
    by (simp add: legacy_world_def fresh_world_def)
  from legacy_migration_precedes_fetch [OF sd14_entry, where w = "legacy_world ['''']"
      and E = quiet_env and models = three_models and t = "''hf_secret''"]
    legacy_present legacy_consent rf three_models_known quiet_dirs
  obtain w1 where
    "migrate_models_ckpt Datasets quiet_env (legacy_world ['''']) = (Inr (), w1)"
    "files w1 = (files (legacy_world ['''']))
                   (legacy_ckpt := None, model_dest ''sd-v1-4.ckpt'' \<mapsto> ''weights of 1.4'')"
    "hub_calls w1 = hub_calls (legacy_world [''''])"
    "\<forall>pre post. map fst three_models = pre @ ''stable-diffusion-1.4'' # post \<longrightarrow>
        (\<exists>s1 w3. download_loop Datasets quiet_env ''hf_secret'' pre [] w1 = (Inr s1, w3) \<and>
           conditional_download quiet_env ''CompVis/stable-diffusion-v-1-4-original''
             ''sd-v1-4.ckpt'' ''hf_secret'' w3
           = (Inr True, w3\<lparr>out := out w3 @ [Exists ''sd-v1-4.ckpt'']\<rparr>))"
    by (simp (no_asm_use)) blast
  note mig = this
  from mig(4) split obtain s1 w3 where
    loop: "download_loop Datasets quiet_env ''hf_secret''
             [''stable-diffusion-1.5'', ''inpainting-1.5''] [] w1 = (Inr s1, w3)" and
    hit: "conditional_download quiet_env ''CompVis/stable-diffusion-v-1-4-original''
             ''sd-v1-4.ckpt'' ''hf_secret'' w3
           = (Inr True, w3\<lparr>out := out w3 @ [Exists ''sd-v1-4.ckpt'']\<rparr>)"
    by blast
  from mig(3) calls have no_calls: "hub_calls w1 = []" by simp
  have run: "\<exists>w1. migrate_models_ckpt Datasets quiet_env (legacy_world ['''']) = (Inr (), w1) \<and>
      files w1 = (files (legacy_world ['''']))
                   (legacy_ckpt := None, model_dest ''sd-v1-4.ckpt'' \<mapsto> ''weights of 1.4'') \<and>
      hub_calls w1 = [] \<and>
      (\<exists>s1 w3. download_loop Datasets quiet_env ''hf_secret''
                  [''stable-diffusion-1.5'', ''inpainting-1.5''] [] w1 = (Inr s1, w3) \<and>
         conditional_download quiet_env ''CompVis/stable-diffusion-v-1-4-original''
             ''sd-v1-4.ckpt'' ''hf_secret'' w3
           = (Inr True, w3\<lparr>out := out w3 @ [Exists ''sd-v1-4.ckpt'']\<rparr>))"
    using mig(1,2) no_calls loop hit by blast
  show ?thesis
    apply (intro conjI)
           apply (rule sd14_entry)
          apply (rule legacy_present)
         apply (rule legacy_consent)
        apply (rule rf)
       apply (rule three_models_known)
      apply (rule quiet_dirs)
     apply (rule split)
    apply (rule run)
    done
qed

section \<open>Properties of the main program\<close>

lemma wants_yes:
  "user_wants_to_download_weights
     (installed_world [''y'', '''', '''', '''', '''', '''', ''n'', ''n'', ''y''])
   = (Inr True, installed_world ['''', '''', '''', '''', '''', ''n'', ''n'', ''y''])"
  by (simp add: user_wants_to_download_weights_def yes_or_no_def installed_world_def
      fresh_world_def)

lemma plan_rejected:
  "select_datasets Datasets (installed_world ['''', '''', '''', '''', '''', ''n'', ''n'', ''y''])
   = (Inr None, installed_world [''y''])"
  by (simp add: Datasets_def yes_or_no_def installed_world_def fresh_world_def)

lemma quit_yes:
  "yes_or_no ''Quit?'' False (installed_world [''y'']) = (Inr True, installed_world [])"
  by (simp add: yes_or_no_def installed_world_def fresh_world_def)

text \<open>
  Claim C9, as the code has it. When the operator wants to download, selection returns
  \<^verbatim>\<open>None\<close>, and the operator then answers the prompt \<^verbatim>\<open>Quit?\<close> with yes, the run ends at
  once through \<^verbatim>\<open>sys.exit(0)\<close>: no exception, no fetch, no message, and no file, request
  list or token changed.
\<close>

theorem confirmed_quit_ends_the_run:
  assumes "user_wants_to_download_weights w = (Inr True, w1)"
    and "select_datasets ds w1 = (Inr None, w2)"
    and "yes_or_no ''Quit?'' False w2 = (Inr True, w3)"
  shows "main ds E w = (SysExit 0, w3) \<and> files w3 = files w \<and> hub_calls w3 = hub_calls w \<and>
         out w3 = out w \<and> hf_token w3 = hf_token w"
proof -
  from assms have "main ds E w = (SysExit 0, w3)"
    by (simp add: main_def download_weights_def)
  moreover from assms(1) have "only_reads_input w w1"
    unfolding user_wants_to_download_weights_def by (rule yes_or_no_frame)
  moreover from assms(2) have "only_reads_input w1 w2" by (rule select_datasets_frame)
  moreover from assms(3) have "only_reads_input w2 w3" by (rule yes_or_no_frame)
  ultimately show ?thesis by (simp add: only_reads_input_def)
qed

theorem confirmed_quit_ends_the_run_witness:
  "user_wants_to_download_weights
     (installed_world [''y'', '''', '''', '''', '''', '''', ''n'', ''n'', ''y''])
   = (Inr True, installed_world ['''', '''', '''', '''', '''', ''n'', ''n'', ''y'']) \<and>
   select_datasets Datasets (installed_world ['''', '''', '''', '''', '''', ''n'', ''n'', ''y''])
   = (Inr None, installed_world [''y'']) \<and>
   yes_or_no ''Quit?'' False (installed_world [''y'']) = (Inr True, installed_world []) \<and>
   main Datasets quiet_env
     (installed_world [''y'', '''', '''', '''', '''', '''', ''n'', ''n'', ''y''])
   = (SysExit 0, installed_world [])"
  using confirmed_quit_ends_the_run [OF wants_yes plan_rejected quit_yes, where E = quiet_env]
    wants_yes plan_rejected quit_yes
  by simp

text \<open>
  Claim C9 as stated fails: the operator keeps the defaults in the menu, rejects the
  plan, declines to change it, and answers \<^verbatim>\<open>Quit?\<close> with no. Selection has returned
  \<^verbatim>\<open>None\<close>, the run goes on to the license step and to \<^verbatim>\<open>download_weight_datasets(None, ...)\<close>,
  and ends with the exception of \<^verbatim>\<open>None.keys()\<close>, which nothing catches.
\<close>

theorem declined_quit_runs_into_exception:
  "fst (select_datasets Datasets
          (installed_world ['''', '''', '''', '''', '''', ''n'', ''n'', ''n'', ''''])) = Inr None \<and>
   fst (main Datasets quiet_env
          (installed_world [''y'', '''', '''', '''', '''', '''', ''n'', ''n'', ''n'', '''']))
     = Uncaught (AttributeError ''keys'')"
  by code_simp

end
